theory Spec2Isabelle
  imports Main "HOL-Library.Char_ord" "HOL-Library.List_Lexorder"
begin

section \<open>Data model (src/types/index.ts)\<close>

text \<open>
  A \<open>Date\<close> is its epoch time in milliseconds, a \<open>number\<close> that counts or
  measures milliseconds is an \<open>int\<close>, a string is a \<open>string\<close>. An optional field
  (\<open>field?: T\<close>) is a \<open>T option\<close>, \<open>None\<close> for \<open>undefined\<close>.
\<close>

record NoteVersion =
  v_id :: string
  v_noteId :: string
  v_content :: string
  v_title :: string
  v_timestamp :: int
  versionNumber :: int

record GlossaryTerm =
  g_term :: string
  g_definition :: string
  g_startIndex :: int
  g_endIndex :: int

datatype GrammarErrorType = spelling | grammar | punctuation

record GrammarError =
  e_text :: string
  e_suggestion :: string
  e_startIndex :: int
  e_endIndex :: int
  e_type :: GrammarErrorType

record AIMetadata =
  summary :: "string option"
  suggestedTags :: "string list option"
  glossaryTerms :: "GlossaryTerm list option"
  grammarErrors :: "GrammarError list option"
  lastAnalyzedAt :: "int option"
  ai_translations :: "(string \<times> string) list option"

record Note =
  note_id :: string
  title :: string
  content :: string
  plainTextContent :: "string option"
  isPinned :: bool
  isEncrypted :: bool
  hasBeenEncrypted :: bool
  encryptedData :: "string option"
  tags :: "string list"
  createdAt :: int
  updatedAt :: int
  lastAccessedAt :: "int option"
  version :: "int option"
  versions :: "NoteVersion list option"
  aiMetadata :: "AIMetadata option"

text \<open>
  \<open>Partial<Note>\<close>: every key of a note, present (\<open>Some\<close>) or absent (\<open>None\<close>).
\<close>

record NoteUpdates =
  u_id :: "string option"
  u_title :: "string option"
  u_content :: "string option"
  u_plainTextContent :: "string option"
  u_isPinned :: "bool option"
  u_isEncrypted :: "bool option"
  u_hasBeenEncrypted :: "bool option"
  u_encryptedData :: "string option"
  u_tags :: "string list option"
  u_createdAt :: "int option"
  u_updatedAt :: "int option"
  u_lastAccessedAt :: "int option"
  u_version :: "int option"
  u_versions :: "NoteVersion list option"
  u_aiMetadata :: "AIMetadata option"

definition no_updates :: NoteUpdates where
  "no_updates =
     \<lparr>u_id = None, u_title = None, u_content = None, u_plainTextContent = None,
      u_isPinned = None, u_isEncrypted = None, u_hasBeenEncrypted = None,
      u_encryptedData = None, u_tags = None, u_createdAt = None, u_updatedAt = None,
      u_lastAccessedAt = None, u_version = None, u_versions = None, u_aiMetadata = None\<rparr>"

text \<open>The object spread \<open>{...existingNote, ...updates}\<close>: a present key wins.\<close>

definition spread :: "Note \<Rightarrow> NoteUpdates \<Rightarrow> Note" where
  "spread n u =
     \<lparr>note_id = (case u_id u of Some x \<Rightarrow> x | None \<Rightarrow> note_id n),
      title = (case u_title u of Some x \<Rightarrow> x | None \<Rightarrow> title n),
      content = (case u_content u of Some x \<Rightarrow> x | None \<Rightarrow> content n),
      plainTextContent = (case u_plainTextContent u of Some x \<Rightarrow> Some x | None \<Rightarrow> plainTextContent n),
      isPinned = (case u_isPinned u of Some x \<Rightarrow> x | None \<Rightarrow> isPinned n),
      isEncrypted = (case u_isEncrypted u of Some x \<Rightarrow> x | None \<Rightarrow> isEncrypted n),
      hasBeenEncrypted = (case u_hasBeenEncrypted u of Some x \<Rightarrow> x | None \<Rightarrow> hasBeenEncrypted n),
      encryptedData = (case u_encryptedData u of Some x \<Rightarrow> Some x | None \<Rightarrow> encryptedData n),
      tags = (case u_tags u of Some x \<Rightarrow> x | None \<Rightarrow> tags n),
      createdAt = (case u_createdAt u of Some x \<Rightarrow> x | None \<Rightarrow> createdAt n),
      updatedAt = (case u_updatedAt u of Some x \<Rightarrow> x | None \<Rightarrow> updatedAt n),
      lastAccessedAt = (case u_lastAccessedAt u of Some x \<Rightarrow> Some x | None \<Rightarrow> lastAccessedAt n),
      version = (case u_version u of Some x \<Rightarrow> Some x | None \<Rightarrow> version n),
      versions = (case u_versions u of Some x \<Rightarrow> Some x | None \<Rightarrow> versions n),
      aiMetadata = (case u_aiMetadata u of Some x \<Rightarrow> Some x | None \<Rightarrow> aiMetadata n)\<rparr>"

datatype error =
    StorageError
  | DecryptFailed
  | InvalidPassword

section \<open>DatabaseService (services/database.ts, the cached version)\<close>

text \<open>
  The Dexie table \<open>notes\<close> has the primary key \<open>id\<close>: it holds at most one note per id
  and enumerates in key order. Every operation on the table is a promise that may
  reject; \<open>io_faults\<close> lists, for the table operations to come, whether each one
  rejects (an exhausted list means no more rejections).
\<close>

record DatabaseService =
  db_notes :: "Note list"
  notesCache :: "string \<rightharpoonup> Note"
  allNotesCache :: "Note list option"
  cacheTimestamp :: int
  io_faults :: "bool list"

definition CACHE_TTL :: int where
  "CACHE_TTL = 5 * 60 * 1000"

definition table_put :: "Note \<Rightarrow> Note list \<Rightarrow> Note list" where
  "table_put n t = insort_key note_id n (filter (\<lambda>m. note_id m \<noteq> note_id n) t)"

definition table_get :: "string \<Rightarrow> Note list \<Rightarrow> Note option" where
  "table_get k t = find (\<lambda>m. note_id m = k) t"

definition table_delete :: "string \<Rightarrow> Note list \<Rightarrow> Note list" where
  "table_delete k t = filter (\<lambda>m. note_id m \<noteq> k) t"

definition io :: "DatabaseService \<Rightarrow> bool \<times> DatabaseService" where
  "io s = (case io_faults s of
             [] \<Rightarrow> (False, s)
           | f # fs \<Rightarrow> (f, s\<lparr>io_faults := fs\<rparr>))"

definition db_toArray :: "DatabaseService \<Rightarrow> DatabaseService \<times> (error + Note list)" where
  "db_toArray s = (case io s of
                     (True, s') \<Rightarrow> (s', Inl StorageError)
                   | (False, s') \<Rightarrow> (s', Inr (db_notes s')))"

definition db_get :: "string \<Rightarrow> DatabaseService \<Rightarrow> DatabaseService \<times> (error + Note option)" where
  "db_get k s = (case io s of
                   (True, s') \<Rightarrow> (s', Inl StorageError)
                 | (False, s') \<Rightarrow> (s', Inr (table_get k (db_notes s'))))"

definition db_put :: "Note \<Rightarrow> DatabaseService \<Rightarrow> DatabaseService \<times> (error + unit)" where
  "db_put n s = (case io s of
                   (True, s') \<Rightarrow> (s', Inl StorageError)
                 | (False, s') \<Rightarrow> (s'\<lparr>db_notes := table_put n (db_notes s')\<rparr>, Inr ()))"

definition db_delete :: "string \<Rightarrow> DatabaseService \<Rightarrow> DatabaseService \<times> (error + unit)" where
  "db_delete k s = (case io s of
                      (True, s') \<Rightarrow> (s', Inl StorageError)
                    | (False, s') \<Rightarrow> (s'\<lparr>db_notes := table_delete k (db_notes s')\<rparr>, Inr ()))"

text \<open>
  \<open>Array.prototype.sort\<close> with a comparator is a stable sort: an element goes before
  the first element it does not compare greater than.
\<close>

fun insert_sorted :: "('a \<Rightarrow> 'a \<Rightarrow> int) \<Rightarrow> 'a \<Rightarrow> 'a list \<Rightarrow> 'a list" where
  "insert_sorted cmp x [] = [x]"
| "insert_sorted cmp x (y # ys) =
     (if cmp x y \<le> 0 then x # y # ys else y # insert_sorted cmp x ys)"

definition sort_by :: "('a \<Rightarrow> 'a \<Rightarrow> int) \<Rightarrow> 'a list \<Rightarrow> 'a list" where
  "sort_by cmp xs = foldr (insert_sorted cmp) xs []"

definition compareNotes :: "Note \<Rightarrow> Note \<Rightarrow> int" where
  "compareNotes a b =
     (if isPinned a \<and> \<not> isPinned b then - 1
      else if \<not> isPinned a \<and> isPinned b then 1
      else updatedAt b - updatedAt a)"

definition invalidateAllNotesCache :: "DatabaseService \<Rightarrow> DatabaseService" where
  "invalidateAllNotesCache s = s\<lparr>allNotesCache := None, cacheTimestamp := 0\<rparr>"

text \<open>\<open>getAllNotes\<close>, with \<open>now\<close> the value of \<open>Date.now()\<close>.\<close>

definition getAllNotes :: "int \<Rightarrow> DatabaseService \<Rightarrow> DatabaseService \<times> Note list" where
  "getAllNotes now s =
     (case (if now - cacheTimestamp s < CACHE_TTL then allNotesCache s else None) of
        Some cached \<Rightarrow> (s, cached)
      | None \<Rightarrow>
          (case db_toArray s of
             (s', Inl e) \<Rightarrow> (s', [])
           | (s', Inr notes) \<Rightarrow>
               (let sortedNotes = sort_by compareNotes notes
                in (s'\<lparr>allNotesCache := Some sortedNotes, cacheTimestamp := now\<rparr>,
                    sortedNotes))))"

definition getNote :: "string \<Rightarrow> DatabaseService \<Rightarrow> DatabaseService \<times> Note option" where
  "getNote k s =
     (case notesCache s k of
        Some cached \<Rightarrow> (s, Some cached)
      | None \<Rightarrow>
          (case db_get k s of
             (s', Inl e) \<Rightarrow> (s', None)
           | (s', Inr None) \<Rightarrow> (s', None)
           | (s', Inr (Some note)) \<Rightarrow>
               (s'\<lparr>notesCache := (notesCache s')(k \<mapsto> note)\<rparr>, Some note)))"

definition saveNote :: "Note \<Rightarrow> DatabaseService \<Rightarrow> DatabaseService \<times> (error + unit)" where
  "saveNote note s =
     (case db_put note s of
        (s', Inl e) \<Rightarrow> (s', Inl e)
      | (s', Inr u) \<Rightarrow>
          (invalidateAllNotesCache (s'\<lparr>notesCache := (notesCache s')(note_id note \<mapsto> note)\<rparr>),
           Inr ()))"

definition deleteNote :: "string \<Rightarrow> DatabaseService \<Rightarrow> DatabaseService \<times> (error + unit)" where
  "deleteNote k s =
     (case db_delete k s of
        (s', Inl e) \<Rightarrow> (s', Inl e)
      | (s', Inr u) \<Rightarrow>
          (invalidateAllNotesCache (s'\<lparr>notesCache := (notesCache s')(k := None)\<rparr>), Inr ()))"

section \<open>The platform: browser and library functions the services call\<close>

text \<open>
  The services call functions that are not part of the repository: the DOM (to turn
  markup into text), CryptoJS (PBKDF2 and AES) and JSON. They are parameters of the
  model. \<open>AES_encrypt\<close> takes the random bytes the library draws for the call;
  \<open>AES_decrypt\<close> is \<open>CryptoJS.AES.decrypt(c, key).toString(CryptoJS.enc.Utf8)\<close>,
  which returns a string or throws (\<open>None\<close>); \<open>JSON_parse\<close> is \<open>None\<close> when the
  text is not the JSON of an envelope.
\<close>

record Envelope =
  env_content :: string
  env_title :: string
  env_salt :: string

record Platform =
  textContent :: "string \<Rightarrow> string"
  PBKDF2 :: "string \<Rightarrow> string \<Rightarrow> string"
  AES_encrypt :: "string \<Rightarrow> string \<Rightarrow> string \<Rightarrow> string"
  AES_decrypt :: "string \<Rightarrow> string \<Rightarrow> string option"
  JSON_stringify :: "Envelope \<Rightarrow> string"
  JSON_parse :: "string \<Rightarrow> Envelope option"

text \<open>The random draws of one call of \<open>encryptNote\<close>: the salt and one per AES call.\<close>

record Entropy =
  r_salt :: string
  r_content :: string
  r_title :: string

section \<open>EncryptionService (services/encryption.ts)\<close>

record Encrypted =
  encryptedContent :: string
  encryptedTitle :: string
  salt :: string

record Decrypted =
  d_content :: string
  d_title :: string

definition deriveKey :: "Platform \<Rightarrow> string \<Rightarrow> string \<Rightarrow> string" where
  "deriveKey P password slt = PBKDF2 P password slt"

definition encryptNote :: "Platform \<Rightarrow> Entropy \<Rightarrow> string \<Rightarrow> string \<Rightarrow> string \<Rightarrow> Encrypted" where
  "encryptNote P rnd cont ttl password =
     (let slt = r_salt rnd;
          key = deriveKey P password slt
      in \<lparr>encryptedContent = AES_encrypt P (r_content rnd) cont key,
          encryptedTitle = AES_encrypt P (r_title rnd) ttl key,
          salt = slt\<rparr>)"

text \<open>
  Whatever is thrown inside the \<open>try\<close>, by the library or by the check on the
  decrypted strings, is caught and replaced by the one error
  \<open>'Failed to decrypt note. Please check your password.'\<close>.
\<close>

definition decryptNote :: "Platform \<Rightarrow> string \<Rightarrow> string \<Rightarrow> string \<Rightarrow> string \<Rightarrow> error + Decrypted" where
  "decryptNote P encContent encTitle password slt =
     (let key = deriveKey P password slt
      in case AES_decrypt P encContent key of
           None \<Rightarrow> Inl DecryptFailed
         | Some cont \<Rightarrow>
             (case AES_decrypt P encTitle key of
                None \<Rightarrow> Inl DecryptFailed
              | Some ttl \<Rightarrow>
                  (if cont = [] \<or> ttl = [] then Inl DecryptFailed
                   else Inr \<lparr>d_content = cont, d_title = ttl\<rparr>)))"

section \<open>NoteService (services/noteService.ts)\<close>

text \<open>
  The services are singletons: the state of the note service is the database service
  and the session passwords of the encryption service. \<open>now\<close> is the value of
  \<open>new Date()\<close> and \<open>uuid\<close> the value of \<open>uuidv4()\<close> in the call.
\<close>

record App =
  database :: DatabaseService
  sessionPasswords :: "string \<rightharpoonup> string"

definition extractPlainText :: "Platform \<Rightarrow> string \<Rightarrow> string" where
  "extractPlainText P html = textContent P html"

definition createNote ::
  "Platform \<Rightarrow> string \<Rightarrow> int \<Rightarrow> string \<Rightarrow> string \<Rightarrow> DatabaseService
     \<Rightarrow> DatabaseService \<times> (error + Note)" where
  "createNote P uuid now ttl cont s =
     (let note = \<lparr>note_id = uuid, title = ttl, content = cont,
                   plainTextContent = Some (extractPlainText P cont),
                   isPinned = False, isEncrypted = False, hasBeenEncrypted = False,
                   encryptedData = None, tags = [], createdAt = now, updatedAt = now,
                   lastAccessedAt = Some now, version = None, versions = None,
                   aiMetadata = None\<rparr>
      in case saveNote note s of
           (s', Inl e) \<Rightarrow> (s', Inl e)
         | (s', Inr u) \<Rightarrow> (s', Inr note))"

definition updateNote ::
  "Platform \<Rightarrow> int \<Rightarrow> string \<Rightarrow> NoteUpdates \<Rightarrow> DatabaseService
     \<Rightarrow> DatabaseService \<times> (error + Note option)" where
  "updateNote P now k updates s =
     (case getNote k s of
        (s1, None) \<Rightarrow> (s1, Inr None)
      | (s1, Some existingNote) \<Rightarrow>
          (let updatedNote = (spread existingNote updates)
                 \<lparr>updatedAt := now,
                  plainTextContent :=
                    (case u_content updates of
                       None \<Rightarrow> plainTextContent existingNote
                     | Some c \<Rightarrow> if c \<noteq> [] then Some (extractPlainText P c)
                                else plainTextContent existingNote)\<rparr>
           in case saveNote updatedNote s1 of
                (s2, Inl e) \<Rightarrow> (s2, Inl e)
              | (s2, Inr u) \<Rightarrow> (s2, Inr (Some updatedNote))))"

definition ns_getNote ::
  "Platform \<Rightarrow> int \<Rightarrow> string \<Rightarrow> DatabaseService \<Rightarrow> DatabaseService \<times> (error + Note option)" where
  "ns_getNote P now k s =
     (case getNote k s of
        (s1, None) \<Rightarrow> (s1, Inr None)
      | (s1, Some note) \<Rightarrow>
          (case updateNote P now k (no_updates\<lparr>u_lastAccessedAt := Some now\<rparr>) s1 of
             (s2, Inl e) \<Rightarrow> (s2, Inl e)
           | (s2, Inr r) \<Rightarrow> (s2, Inr (Some note))))"

definition ns_encryptNote ::
  "Platform \<Rightarrow> Entropy \<Rightarrow> int \<Rightarrow> string \<Rightarrow> string \<Rightarrow> DatabaseService
     \<Rightarrow> DatabaseService \<times> (error + Note option)" where
  "ns_encryptNote P rnd now k password s =
     (case getNote k s of
        (s1, None) \<Rightarrow> (s1, Inr None)
      | (s1, Some note) \<Rightarrow>
          (let enc = encryptNote P rnd (content note) (title note) password;
               encryptedNote = note
                 \<lparr>isEncrypted := True,
                  hasBeenEncrypted := True,
                  encryptedData := Some (JSON_stringify P
                     \<lparr>env_content = encryptedContent enc, env_title = encryptedTitle enc,
                      env_salt = salt enc\<rparr>),
                  content := [],
                  title := title note,
                  updatedAt := now\<rparr>
           in case saveNote encryptedNote s1 of
                (s2, Inl e) \<Rightarrow> (s2, Inl e)
              | (s2, Inr u) \<Rightarrow> (s2, Inr (Some encryptedNote))))"

definition storeSessionPassword :: "string \<Rightarrow> string \<Rightarrow> App \<Rightarrow> App" where
  "storeSessionPassword noteId password a =
     a\<lparr>sessionPasswords := (sessionPasswords a)(noteId \<mapsto> password)\<rparr>"

definition ns_decryptNote ::
  "Platform \<Rightarrow> string \<Rightarrow> string \<Rightarrow> App \<Rightarrow> App \<times> (error + Note option)" where
  "ns_decryptNote P k password a =
     (case getNote k (database a) of
        (s1, None) \<Rightarrow> (a\<lparr>database := s1\<rparr>, Inr None)
      | (s1, Some note) \<Rightarrow>
          (let a1 = a\<lparr>database := s1\<rparr>
           in case encryptedData note of
                None \<Rightarrow> (a1, Inr None)
              | Some json \<Rightarrow>
                  (if \<not> isEncrypted note \<or> json = [] then (a1, Inr None)
                   else (case JSON_parse P json of
                           None \<Rightarrow> (a1, Inl InvalidPassword)
                         | Some encData \<Rightarrow>
                             (case decryptNote P (env_content encData) (env_title encData)
                                     password (env_salt encData) of
                                Inl e \<Rightarrow> (a1, Inl InvalidPassword)
                              | Inr dec \<Rightarrow>
                                  (storeSessionPassword k password a1,
                                   Inr (Some (note\<lparr>isEncrypted := False,
                                                   hasBeenEncrypted := True,
                                                   content := d_content dec,
                                                   title := d_title dec,
                                                   plainTextContent :=
                                                     Some (extractPlainText P (d_content dec))\<rparr>))))))))"

definition createVersion ::
  "string \<Rightarrow> int \<Rightarrow> string \<Rightarrow> string \<Rightarrow> string \<Rightarrow> DatabaseService
     \<Rightarrow> DatabaseService \<times> (error + NoteVersion option)" where
  "createVersion uuid now noteId cont ttl s =
     (case getNote noteId s of
        (s1, None) \<Rightarrow> (s1, Inr None)
      | (s1, Some note) \<Rightarrow>
          (let vn = (case version note of None \<Rightarrow> 0 | Some n \<Rightarrow> n) + 1;
               ver = \<lparr>v_id = uuid, v_noteId = noteId, v_content = cont, v_title = ttl,
                      v_timestamp = now, versionNumber = vn\<rparr>;
               updatedNote = note
                 \<lparr>version := Some vn,
                  versions := Some ((case versions note of None \<Rightarrow> [] | Some vs \<Rightarrow> vs) @ [ver])\<rparr>
           in case saveNote updatedNote s1 of
                (s2, Inl e) \<Rightarrow> (s2, Inl e)
              | (s2, Inr u) \<Rightarrow> (s2, Inr (Some ver))))"

text \<open>
  The note service imports the database service of \<open>services/database.ts\<close>, which
  has no cache: its \<open>getNote\<close> reads the table at every call and turns a rejected
  read into \<open>null\<close>, and its \<open>saveNote\<close> writes the table and rethrows. A function
  of the note service that calls \<open>getNote\<close> once and then saves does the same table
  operations over either database service when the note is not in the point cache;
  \<open>restoreToVersion\<close> calls \<open>getNote\<close> twice, so it is modelled over the
  database service without cache.
\<close>

definition getNote_uncached :: "string \<Rightarrow> DatabaseService \<Rightarrow> DatabaseService \<times> Note option" where
  "getNote_uncached k s =
     (case db_get k s of
        (s', Inl e) \<Rightarrow> (s', None)
      | (s', Inr None) \<Rightarrow> (s', None)
      | (s', Inr (Some note)) \<Rightarrow> (s', Some note))"

definition saveNote_uncached :: "Note \<Rightarrow> DatabaseService \<Rightarrow> DatabaseService \<times> (error + unit)" where
  "saveNote_uncached note s =
     (case db_put note s of
        (s', Inl e) \<Rightarrow> (s', Inl e)
      | (s', Inr u) \<Rightarrow> (s', Inr ()))"

definition getNoteVersions :: "string \<Rightarrow> DatabaseService \<Rightarrow> DatabaseService \<times> NoteVersion list" where
  "getNoteVersions noteId s =
     (case getNote_uncached noteId s of
        (s1, None) \<Rightarrow> (s1, [])
      | (s1, Some note) \<Rightarrow> (s1, (case versions note of None \<Rightarrow> [] | Some vs \<Rightarrow> vs)))"

definition getVersion ::
  "string \<Rightarrow> string \<Rightarrow> DatabaseService \<Rightarrow> DatabaseService \<times> NoteVersion option" where
  "getVersion noteId versionId s =
     (case getNoteVersions noteId s of
        (s1, vs) \<Rightarrow> (s1, find (\<lambda>v. v_id v = versionId) vs))"

definition restoreToVersion ::
  "Platform \<Rightarrow> int \<Rightarrow> string \<Rightarrow> string \<Rightarrow> DatabaseService
     \<Rightarrow> DatabaseService \<times> (error + Note option)" where
  "restoreToVersion P now noteId versionId s =
     (case getVersion noteId versionId s of
        (s1, None) \<Rightarrow> (s1, Inr None)
      | (s1, Some ver) \<Rightarrow>
          (case getNote_uncached noteId s1 of
             (s2, None) \<Rightarrow> (s2, Inr None)
           | (s2, Some note) \<Rightarrow>
               (let restoredNote = note
                      \<lparr>title := v_title ver,
                       content := v_content ver,
                       plainTextContent := Some (extractPlainText P (v_content ver)),
                       updatedAt := now\<rparr>
                in case saveNote_uncached restoredNote s2 of
                     (s3, Inl e) \<Rightarrow> (s3, Inl e)
                   | (s3, Inr u) \<Rightarrow> (s3, Inr (Some restoredNote)))))"

definition deleteVersion ::
  "string \<Rightarrow> string \<Rightarrow> DatabaseService \<Rightarrow> DatabaseService \<times> (error + bool)" where
  "deleteVersion noteId versionId s =
     (case getNote noteId s of
        (s1, None) \<Rightarrow> (s1, Inr False)
      | (s1, Some note) \<Rightarrow>
          (case versions note of
             None \<Rightarrow> (s1, Inr False)
           | Some vs \<Rightarrow>
               (let updatedVersions = filter (\<lambda>v. v_id v \<noteq> versionId) vs;
                    updatedNote = note\<lparr>versions := Some updatedVersions\<rparr>
                in case saveNote updatedNote s1 of
                     (s2, Inl e) \<Rightarrow> (s2, Inl e)
                   | (s2, Inr u) \<Rightarrow> (s2, Inr True))))"

definition clearVersions :: "string \<Rightarrow> DatabaseService \<Rightarrow> DatabaseService \<times> (error + bool)" where
  "clearVersions noteId s =
     (case getNote noteId s of
        (s1, None) \<Rightarrow> (s1, Inr False)
      | (s1, Some note) \<Rightarrow>
          (let updatedNote = note\<lparr>versions := Some [], version := Some 0\<rparr>
           in case saveNote updatedNote s1 of
                (s2, Inl e) \<Rightarrow> (s2, Inl e)
              | (s2, Inr u) \<Rightarrow> (s2, Inr True)))"

text \<open>
  \<open>updateNoteWithVersion\<close>: \<open>uuid\<close> and \<open>tv\<close> are the id and the timestamp of the
  version it may create, \<open>now\<close> the time of the update.
\<close>

definition shouldCreateVersion :: "NoteUpdates \<Rightarrow> Note \<Rightarrow> bool" where
  "shouldCreateVersion updates existingNote \<longleftrightarrow>
     (case u_content updates of
        None \<Rightarrow> False
      | Some c \<Rightarrow> c \<noteq> [] \<and> c \<noteq> content existingNote)
     \<or> (case u_title updates of
          None \<Rightarrow> False
        | Some t \<Rightarrow> t \<noteq> [] \<and> t \<noteq> title existingNote)"

definition updateNoteWithVersion ::
  "Platform \<Rightarrow> string \<Rightarrow> int \<Rightarrow> int \<Rightarrow> string \<Rightarrow> NoteUpdates \<Rightarrow> DatabaseService
     \<Rightarrow> DatabaseService \<times> (error + Note option)" where
  "updateNoteWithVersion P uuid tv now k updates s =
     (case getNote k s of
        (s1, None) \<Rightarrow> (s1, Inr None)
      | (s1, Some existingNote) \<Rightarrow>
          (if shouldCreateVersion updates existingNote
           then (case createVersion uuid tv k (content existingNote) (title existingNote) s1 of
                   (s2, Inl e) \<Rightarrow> (s2, Inl e)
                 | (s2, Inr r) \<Rightarrow> updateNote P now k updates s2)
           else updateNote P now k updates s1))"

section \<open>The auto-save hook (hooks/useAutoSave.ts)\<close>

text \<open>
  The hook holds three refs; the event loop holds the armed timeouts, each with its
  handle and the time at which it is due, and the saves under way, each with the
  time at which it resolves. \<open>saves\<close> records, in order, the notes the hook has
  handed to \<open>saveNote\<close>.
\<close>

record Options =
  delay :: int
  maxDelay :: int

definition defaultOptions :: Options where
  "defaultOptions = \<lparr>delay = 2000, maxDelay = 10000\<rparr>"

record AutoSave =
  timers :: "(nat \<times> int) list"
  nextHandle :: nat
  timeoutRef :: "nat option"
  lastSaveRef :: int
  pendingNoteRef :: "Note option"
  inFlight :: "int list"
  saves :: "Note list"

definition initialAutoSave :: AutoSave where
  "initialAutoSave =
     \<lparr>timers = [], nextHandle = 1, timeoutRef = None, lastSaveRef = 0,
      pendingNoteRef = None, inFlight = [], saves = []\<rparr>"

definition clearTimeout :: "nat \<Rightarrow> AutoSave \<Rightarrow> AutoSave" where
  "clearTimeout h a = a\<lparr>timers := filter (\<lambda>t. fst t \<noteq> h) (timers a)\<rparr>"

text \<open>
  The delay of \<open>setTimeout\<close> is a 32-bit integer: a delay that is not between 1 and
  2147483647 is replaced by 1 ms, so that the timeout fires at once (the rule of
  Node's timers; a browser wraps such a delay to 32 bits and takes a negative one
  for zero, and agrees with this rule on every delay within the range).
\<close>

definition TIMEOUT_MAX :: int where
  "TIMEOUT_MAX = 2147483647"

definition timerDelay :: "int \<Rightarrow> int" where
  "timerDelay d = (if 1 \<le> d \<and> d \<le> TIMEOUT_MAX then d else 1)"

definition setTimeout :: "int \<Rightarrow> int \<Rightarrow> AutoSave \<Rightarrow> nat \<times> AutoSave" where
  "setTimeout d now a =
     (nextHandle a,
      a\<lparr>timers := timers a @ [(nextHandle a, now + timerDelay d)],
        nextHandle := nextHandle a + 1\<rparr>)"

definition actualDelay :: "Options \<Rightarrow> int \<Rightarrow> int" where
  "actualDelay opts timeSinceLastSave =
     min (delay opts) (max 100 (maxDelay opts - timeSinceLastSave))"

definition scheduleSave :: "Options \<Rightarrow> int \<Rightarrow> Note \<Rightarrow> AutoSave \<Rightarrow> AutoSave" where
  "scheduleSave opts now note a =
     (let a1 = a\<lparr>pendingNoteRef := Some note\<rparr>;
          a2 = (case timeoutRef a1 of None \<Rightarrow> a1 | Some h \<Rightarrow> clearTimeout h a1);
          timeSinceLastSave = now - lastSaveRef a2
      in case setTimeout (actualDelay opts timeSinceLastSave) now a2 of
           (h, a3) \<Rightarrow> a3\<lparr>timeoutRef := Some h\<rparr>)"

text \<open>
  \<open>saveNote\<close> of the hook awaits \<open>noteService.updateNoteWithVersion\<close>. \<open>persist\<close>
  gives the outcome of that call for a note: \<open>None\<close> when it throws or returns
  \<open>null\<close>, and \<open>Some l\<close> when it returns a note \<open>l\<close> milliseconds after it was
  started; \<open>lastSaveRef\<close> is set to the time at which the call resolves, when the
  event loop gets there.
\<close>

definition hook_saveNote :: "(Note \<Rightarrow> nat option) \<Rightarrow> int \<Rightarrow> Note \<Rightarrow> AutoSave \<Rightarrow> AutoSave" where
  "hook_saveNote persist t note a =
     a\<lparr>saves := saves a @ [note],
       inFlight := (case persist note of
                      None \<Rightarrow> inFlight a
                    | Some l \<Rightarrow> inFlight a @ [t + int l])\<rparr>"

definition timerCallback :: "(Note \<Rightarrow> nat option) \<Rightarrow> int \<Rightarrow> AutoSave \<Rightarrow> AutoSave" where
  "timerCallback persist t a =
     (case pendingNoteRef a of
        None \<Rightarrow> a
      | Some note \<Rightarrow> (hook_saveNote persist t note a)\<lparr>pendingNoteRef := None\<rparr>)"

text \<open>The saves that have resolved by time \<open>t\<close> set \<open>lastSaveRef\<close>, in the order in which they resolve.\<close>

definition resolveSaves :: "int \<Rightarrow> AutoSave \<Rightarrow> AutoSave" where
  "resolveSaves t a =
     foldl (\<lambda>a' r. a'\<lparr>lastSaveRef := r\<rparr>)
       (a\<lparr>inFlight := filter (\<lambda>r. \<not> r \<le> t) (inFlight a)\<rparr>)
       (sort (filter (\<lambda>r. r \<le> t) (inFlight a)))"

text \<open>
  The event loop reaches time \<open>t\<close>: every timeout due by then fires, in order of its
  due time, and every save that resolves by then resolves.
\<close>

definition advance :: "(Note \<Rightarrow> nat option) \<Rightarrow> int \<Rightarrow> AutoSave \<Rightarrow> AutoSave" where
  "advance persist t a =
     resolveSaves t
       (foldl (\<lambda>a' tm. timerCallback persist (snd tm) a')
          (a\<lparr>timers := filter (\<lambda>tm. \<not> snd tm \<le> t) (timers a)\<rparr>)
          (sort_key snd (filter (\<lambda>tm. snd tm \<le> t) (timers a))))"

text \<open>A sequence of edits, each with the time at which it arrives.\<close>

fun edits ::
  "(Note \<Rightarrow> nat option) \<Rightarrow> Options \<Rightarrow> (int \<times> Note) list \<Rightarrow> AutoSave \<Rightarrow> AutoSave" where
  "edits persist opts [] a = a"
| "edits persist opts ((t, note) # es) a =
     edits persist opts es (scheduleSave opts t note (advance persist t a))"

definition flushSave :: "(Note \<Rightarrow> nat option) \<Rightarrow> int \<Rightarrow> AutoSave \<Rightarrow> AutoSave" where
  "flushSave persist now a =
     (let a1 = (case timeoutRef a of None \<Rightarrow> a | Some h \<Rightarrow> clearTimeout h a)
      in case pendingNoteRef a1 of
           None \<Rightarrow> a1
         | Some note \<Rightarrow> (hook_saveNote persist now note a1)\<lparr>pendingNoteRef := None\<rparr>)"

definition cancelSave :: "AutoSave \<Rightarrow> AutoSave" where
  "cancelSave a =
     (let a1 = (case timeoutRef a of None \<Rightarrow> a | Some h \<Rightarrow> clearTimeout h a)
      in a1\<lparr>pendingNoteRef := None\<rparr>)"

section \<open>A small platform for evaluating scenarios\<close>

text \<open>
  One instance of the platform, small enough to evaluate: text is what is left
  of the markup outside its tags, the derived key is the password followed by the
  salt, the cipher puts the key before the message and decryption removes as many
  characters as the key has, and an envelope is written as its three fields
  separated by bars. Decrypting what was encrypted under the same key gives the
  message back, which is all the services rely on.
\<close>

fun strip_tags :: "bool \<Rightarrow> string \<Rightarrow> string" where
  "strip_tags inTag [] = []"
| "strip_tags inTag (c # cs) =
     (if inTag then (if c = CHR ''>'' then strip_tags False cs else strip_tags True cs)
      else (if c = CHR ''<'' then strip_tags True cs else c # strip_tags False cs))"

definition bar_fields :: "string \<Rightarrow> Envelope option" where
  "bar_fields s =
     (let c = takeWhile (\<lambda>x. x \<noteq> CHR ''|'') s;
          r1 = drop 1 (dropWhile (\<lambda>x. x \<noteq> CHR ''|'') s);
          t = takeWhile (\<lambda>x. x \<noteq> CHR ''|'') r1;
          r2 = drop 1 (dropWhile (\<lambda>x. x \<noteq> CHR ''|'') r1)
      in if length (filter (\<lambda>x. x = CHR ''|'') s) = 2
         then Some \<lparr>env_content = c, env_title = t, env_salt = r2\<rparr>
         else None)"

definition small_platform :: Platform where
  "small_platform =
     \<lparr>textContent = strip_tags False,
      PBKDF2 = (\<lambda>password slt. password @ slt),
      AES_encrypt = (\<lambda>rnd msg key. key @ msg),
      AES_decrypt = (\<lambda>c key. Some (drop (length key) c)),
      JSON_stringify = (\<lambda>e. env_content e @ ''|'' @ env_title e @ ''|'' @ env_salt e),
      JSON_parse = bar_fields\<rparr>"

text \<open>What the services rely on: AES decryption inverts AES encryption under the same key.\<close>

definition aes_inverts :: "Platform \<Rightarrow> bool" where
  "aes_inverts P \<longleftrightarrow> (\<forall>rnd msg key. AES_decrypt P (AES_encrypt P rnd msg key) key = Some msg)"

unbundle bit_operations_syntax

section \<open>CryptoJS: the cipher behind lock and unlock\<close>

text \<open>
  \<open>CryptoJS.AES.encrypt(message, key)\<close> with a key that is a string, as
  \<open>encryptNote\<close> calls it, is password-based encryption in the format of OpenSSL:
  the library draws 8 bytes of salt, derives 32 bytes of key and 16 of
  initialisation vector from the key string and the salt with MD5 (\<open>EvpKDF\<close>),
  encrypts the padded message with AES-256 in CBC mode, and writes \<open>Salted__\<close>, the
  salt and the ciphertext in Base64. \<open>CryptoJS.AES.decrypt\<close> reads the salt back,
  derives the same way, decrypts, and removes as many bytes as the last byte says,
  without checking the padding; \<open>toString(CryptoJS.enc.Utf8)\<close> throws when what is
  left is not well-formed UTF-8. Nothing in the format authenticates the key.

  Bytes and 32-bit words are integers; a string stands for the bytes of its UTF-8
  encoding.
\<close>

subsection \<open>MD5\<close>

text \<open>
  The 64 steps of a block, in four rounds of 16: for each step the index of the word
  of the block, the rotation, and the constant \<open>T\<close> (the integer part of
  \<open>2\<^sup>3\<^sup>2 |sin i|\<close>).
\<close>

definition MD5_FF :: "(nat \<times> nat \<times> int) list" where
  "MD5_FF =
    [(0, 7, 3614090360), (1, 12, 3905402710), (2, 17, 606105819), (3, 22, 3250441966),
     (4, 7, 4118548399), (5, 12, 1200080426), (6, 17, 2821735955), (7, 22, 4249261313),
     (8, 7, 1770035416), (9, 12, 2336552879), (10, 17, 4294925233), (11, 22, 2304563134),
     (12, 7, 1804603682), (13, 12, 4254626195), (14, 17, 2792965006), (15, 22, 1236535329)]"

definition MD5_GG :: "(nat \<times> nat \<times> int) list" where
  "MD5_GG =
    [(1, 5, 4129170786), (6, 9, 3225465664), (11, 14, 643717713), (0, 20, 3921069994),
     (5, 5, 3593408605), (10, 9, 38016083), (15, 14, 3634488961), (4, 20, 3889429448),
     (9, 5, 568446438), (14, 9, 3275163606), (3, 14, 4107603335), (8, 20, 1163531501),
     (13, 5, 2850285829), (2, 9, 4243563512), (7, 14, 1735328473), (12, 20, 2368359562)]"

definition MD5_HH :: "(nat \<times> nat \<times> int) list" where
  "MD5_HH =
    [(5, 4, 4294588738), (8, 11, 2272392833), (11, 16, 1839030562), (14, 23, 4259657740),
     (1, 4, 2763975236), (4, 11, 1272893353), (7, 16, 4139469664), (10, 23, 3200236656),
     (13, 4, 681279174), (0, 11, 3936430074), (3, 16, 3572445317), (6, 23, 76029189),
     (9, 4, 3654602809), (12, 11, 3873151461), (15, 16, 530742520), (2, 23, 3299628645)]"

definition MD5_II :: "(nat \<times> nat \<times> int) list" where
  "MD5_II =
    [(0, 6, 4096336452), (7, 10, 1126891415), (14, 15, 2878612391), (5, 21, 4237533241),
     (12, 6, 1700485571), (3, 10, 2399980690), (10, 15, 4293915773), (1, 21, 2240044497),
     (8, 6, 1873313359), (15, 10, 4264355552), (6, 15, 2734768916), (13, 21, 1309151649),
     (4, 6, 4149444226), (11, 10, 3174756917), (2, 15, 718787259), (9, 21, 3951481745)]"

definition add32 :: "int \<Rightarrow> int \<Rightarrow> int" where
  "add32 x y = (x + y) AND 4294967295"

definition not32 :: "int \<Rightarrow> int" where
  "not32 x = 4294967295 - x"

definition rotl32 :: "int \<Rightarrow> nat \<Rightarrow> int" where
  "rotl32 x n = (push_bit n x AND 4294967295) OR drop_bit (32 - n) x"

definition MD5_F :: "int \<Rightarrow> int \<Rightarrow> int \<Rightarrow> int" where
  "MD5_F b c d = (b AND c) OR (not32 b AND d)"

definition MD5_G :: "int \<Rightarrow> int \<Rightarrow> int \<Rightarrow> int" where
  "MD5_G b c d = (b AND d) OR (c AND not32 d)"

definition MD5_H :: "int \<Rightarrow> int \<Rightarrow> int \<Rightarrow> int" where
  "MD5_H b c d = b XOR c XOR d"

definition MD5_I :: "int \<Rightarrow> int \<Rightarrow> int \<Rightarrow> int" where
  "MD5_I b c d = c XOR (b OR not32 d)"

fun MD5_step ::
  "(int \<Rightarrow> int \<Rightarrow> int \<Rightarrow> int) \<Rightarrow> int list \<Rightarrow> int \<times> int \<times> int \<times> int \<Rightarrow> nat \<times> nat \<times> int
     \<Rightarrow> int \<times> int \<times> int \<times> int" where
  "MD5_step f M (a, b, c, d) (k, s, t) =
     (d, add32 b (rotl32 (add32 (add32 (add32 a (f b c d)) (M ! k)) t) s), b, c)"

definition MD5_rounds :: "int list \<Rightarrow> int \<times> int \<times> int \<times> int \<Rightarrow> int \<times> int \<times> int \<times> int" where
  "MD5_rounds M H =
     foldl (MD5_step MD5_I M)
       (foldl (MD5_step MD5_H M)
          (foldl (MD5_step MD5_G M)
             (foldl (MD5_step MD5_F M) H MD5_FF) MD5_GG) MD5_HH) MD5_II"

fun le_word :: "int list \<Rightarrow> int" where
  "le_word [] = 0"
| "le_word (b # bs) = b + 256 * le_word bs"

fun le_bytes :: "nat \<Rightarrow> int \<Rightarrow> int list" where
  "le_bytes 0 w = []"
| "le_bytes (Suc n) w = w mod 256 # le_bytes n (w div 256)"

fun chunks :: "nat \<Rightarrow> 'a list \<Rightarrow> 'a list list" where
  "chunks n [] = []"
| "chunks n (x # xs) = (x # take (n - 1) xs) # chunks n (drop (n - 1) xs)"

fun MD5_add :: "int \<times> int \<times> int \<times> int \<Rightarrow> int \<times> int \<times> int \<times> int \<Rightarrow> int \<times> int \<times> int \<times> int" where
  "MD5_add (a, b, c, d) (a', b', c', d') = (add32 a a', add32 b b', add32 c c', add32 d d')"

definition MD5_block :: "int \<times> int \<times> int \<times> int \<Rightarrow> int list \<Rightarrow> int \<times> int \<times> int \<times> int" where
  "MD5_block H block = MD5_add H (MD5_rounds (map le_word (chunks 4 block)) H)"

definition MD5_pad :: "int list \<Rightarrow> int list" where
  "MD5_pad m = m @ [128] @ replicate ((119 - length m mod 64) mod 64) 0
                 @ le_bytes 8 (8 * int (length m))"

fun MD5_digest :: "int \<times> int \<times> int \<times> int \<Rightarrow> int list" where
  "MD5_digest (a, b, c, d) = le_bytes 4 a @ le_bytes 4 b @ le_bytes 4 c @ le_bytes 4 d"

definition MD5 :: "int list \<Rightarrow> int list" where
  "MD5 m = MD5_digest (foldl MD5_block (1732584193, 4023233417, 2562383102, 271733878)
                         (chunks 64 (MD5_pad m)))"



subsection \<open>AES-256\<close>

definition SBOX :: "int list" where
  "SBOX =
    [99, 124, 119, 123, 242, 107, 111, 197, 48, 1, 103, 43, 254, 215, 171, 118,
     202, 130, 201, 125, 250, 89, 71, 240, 173, 212, 162, 175, 156, 164, 114, 192,
     183, 253, 147, 38, 54, 63, 247, 204, 52, 165, 229, 241, 113, 216, 49, 21,
     4, 199, 35, 195, 24, 150, 5, 154, 7, 18, 128, 226, 235, 39, 178, 117,
     9, 131, 44, 26, 27, 110, 90, 160, 82, 59, 214, 179, 41, 227, 47, 132,
     83, 209, 0, 237, 32, 252, 177, 91, 106, 203, 190, 57, 74, 76, 88, 207,
     208, 239, 170, 251, 67, 77, 51, 133, 69, 249, 2, 127, 80, 60, 159, 168,
     81, 163, 64, 143, 146, 157, 56, 245, 188, 182, 218, 33, 16, 255, 243, 210,
     205, 12, 19, 236, 95, 151, 68, 23, 196, 167, 126, 61, 100, 93, 25, 115,
     96, 129, 79, 220, 34, 42, 144, 136, 70, 238, 184, 20, 222, 94, 11, 219,
     224, 50, 58, 10, 73, 6, 36, 92, 194, 211, 172, 98, 145, 149, 228, 121,
     231, 200, 55, 109, 141, 213, 78, 169, 108, 86, 244, 234, 101, 122, 174, 8,
     186, 120, 37, 46, 28, 166, 180, 198, 232, 221, 116, 31, 75, 189, 139, 138,
     112, 62, 181, 102, 72, 3, 246, 14, 97, 53, 87, 185, 134, 193, 29, 158,
     225, 248, 152, 17, 105, 217, 142, 148, 155, 30, 135, 233, 206, 85, 40, 223,
     140, 161, 137, 13, 191, 230, 66, 104, 65, 153, 45, 15, 176, 84, 187, 22]"

definition INV_SBOX :: "int list" where
  "INV_SBOX =
    [82, 9, 106, 213, 48, 54, 165, 56, 191, 64, 163, 158, 129, 243, 215, 251,
     124, 227, 57, 130, 155, 47, 255, 135, 52, 142, 67, 68, 196, 222, 233, 203,
     84, 123, 148, 50, 166, 194, 35, 61, 238, 76, 149, 11, 66, 250, 195, 78,
     8, 46, 161, 102, 40, 217, 36, 178, 118, 91, 162, 73, 109, 139, 209, 37,
     114, 248, 246, 100, 134, 104, 152, 22, 212, 164, 92, 204, 93, 101, 182, 146,
     108, 112, 72, 80, 253, 237, 185, 218, 94, 21, 70, 87, 167, 141, 157, 132,
     144, 216, 171, 0, 140, 188, 211, 10, 247, 228, 88, 5, 184, 179, 69, 6,
     208, 44, 30, 143, 202, 63, 15, 2, 193, 175, 189, 3, 1, 19, 138, 107,
     58, 145, 17, 65, 79, 103, 220, 234, 151, 242, 207, 206, 240, 180, 230, 115,
     150, 172, 116, 34, 231, 173, 53, 133, 226, 249, 55, 232, 28, 117, 223, 110,
     71, 241, 26, 113, 29, 41, 197, 137, 111, 183, 98, 14, 170, 24, 190, 27,
     252, 86, 62, 75, 198, 210, 121, 32, 154, 219, 192, 254, 120, 205, 90, 244,
     31, 221, 168, 51, 136, 7, 199, 49, 177, 18, 16, 89, 39, 128, 236, 95,
     96, 81, 127, 169, 25, 181, 74, 13, 45, 229, 122, 159, 147, 201, 156, 239,
     160, 224, 59, 77, 174, 42, 245, 176, 200, 235, 187, 60, 131, 83, 153, 97,
     23, 43, 4, 126, 186, 119, 214, 38, 225, 105, 20, 99, 85, 33, 12, 125]"

definition xor_bytes :: "int list \<Rightarrow> int list \<Rightarrow> int list" where
  "xor_bytes xs ys = map2 (XOR) xs ys"

definition xtime :: "int \<Rightarrow> int" where
  "xtime b = (if b < 128 then 2 * b else (2 * b - 256) XOR 27)"

definition sub :: "int \<Rightarrow> int" where
  "sub b = SBOX ! nat b"

definition invSub :: "int \<Rightarrow> int" where
  "invSub b = INV_SBOX ! nat b"

definition SubWord :: "int list \<Rightarrow> int list" where
  "SubWord w = map sub w"

definition RotWord :: "int list \<Rightarrow> int list" where
  "RotWord w = rotate1 w"

text \<open>The key schedule of a key of 8 words: 60 words, that is 15 round keys.\<close>

definition nextWord :: "int \<Rightarrow> int list list \<Rightarrow> int list" where
  "nextWord rc ws =
     xor_bytes (ws ! (length ws - 8))
       (if length ws mod 8 = 0 then xor_bytes (SubWord (RotWord (last ws))) [rc, 0, 0, 0]
        else if length ws mod 8 = 4 then SubWord (last ws)
        else last ws)"

fun expandKey :: "nat \<Rightarrow> int \<Rightarrow> int list list \<Rightarrow> int list list" where
  "expandKey 0 rc ws = ws"
| "expandKey (Suc n) rc ws =
     expandKey n (if length ws mod 8 = 0 then xtime rc else rc) (ws @ [nextWord rc ws])"

definition keySchedule :: "int list \<Rightarrow> int list list" where
  "keySchedule key = map concat (chunks 4 (expandKey 52 1 (chunks 4 key)))"

definition ShiftRows :: "int list \<Rightarrow> int list" where
  "ShiftRows s = map (nth s) [0, 5, 10, 15, 4, 9, 14, 3, 8, 13, 2, 7, 12, 1, 6, 11]"

definition InvShiftRows :: "int list \<Rightarrow> int list" where
  "InvShiftRows s = map (nth s) [0, 13, 10, 7, 4, 1, 14, 11, 8, 5, 2, 15, 12, 9, 6, 3]"

definition SubBytes :: "int list \<Rightarrow> int list" where
  "SubBytes s = map sub s"

definition InvSubBytes :: "int list \<Rightarrow> int list" where
  "InvSubBytes s = map invSub s"

fun mixColumn :: "int list \<Rightarrow> int list" where
  "mixColumn [a, b, c, d] =
     [xtime a XOR (xtime b XOR b) XOR c XOR d,
      a XOR xtime b XOR (xtime c XOR c) XOR d,
      a XOR b XOR xtime c XOR (xtime d XOR d),
      (xtime a XOR a) XOR b XOR c XOR xtime d]"
| "mixColumn w = w"

definition mul9 :: "int \<Rightarrow> int" where
  "mul9 b = xtime (xtime (xtime b)) XOR b"

definition mul11 :: "int \<Rightarrow> int" where
  "mul11 b = xtime (xtime (xtime b)) XOR xtime b XOR b"

definition mul13 :: "int \<Rightarrow> int" where
  "mul13 b = xtime (xtime (xtime b)) XOR xtime (xtime b) XOR b"

definition mul14 :: "int \<Rightarrow> int" where
  "mul14 b = xtime (xtime (xtime b)) XOR xtime (xtime b) XOR xtime b"

fun invMixColumn :: "int list \<Rightarrow> int list" where
  "invMixColumn [a, b, c, d] =
     [mul14 a XOR mul11 b XOR mul13 c XOR mul9 d,
      mul9 a XOR mul14 b XOR mul11 c XOR mul13 d,
      mul13 a XOR mul9 b XOR mul14 c XOR mul11 d,
      mul11 a XOR mul13 b XOR mul9 c XOR mul14 d]"
| "invMixColumn w = w"

definition MixColumns :: "int list \<Rightarrow> int list" where
  "MixColumns s = concat (map mixColumn (chunks 4 s))"

definition InvMixColumns :: "int list \<Rightarrow> int list" where
  "InvMixColumns s = concat (map invMixColumn (chunks 4 s))"

definition encryptRound :: "int list \<Rightarrow> int list \<Rightarrow> int list" where
  "encryptRound s k = xor_bytes (MixColumns (ShiftRows (SubBytes s))) k"

definition decryptRound :: "int list \<Rightarrow> int list \<Rightarrow> int list" where
  "decryptRound s k = InvMixColumns (xor_bytes (InvSubBytes (InvShiftRows s)) k)"

definition encryptBlock :: "int list list \<Rightarrow> int list \<Rightarrow> int list" where
  "encryptBlock ks b =
     xor_bytes (ShiftRows (SubBytes (foldl encryptRound (xor_bytes b (hd ks)) (butlast (tl ks)))))
       (last ks)"

definition decryptBlock :: "int list list \<Rightarrow> int list \<Rightarrow> int list" where
  "decryptBlock ks b =
     xor_bytes (InvSubBytes (InvShiftRows
                  (foldl decryptRound (xor_bytes b (last ks)) (rev (butlast (tl ks))))))
       (hd ks)"

subsection \<open>CBC mode and the padding\<close>









subsection \<open>Base64, UTF-8 and the format of OpenSSL\<close>






definition Utf8_parse :: "string \<Rightarrow> int list" where
  "Utf8_parse s = map of_char s"









subsection \<open>Encryption and decryption with a key string\<close>




subsection \<open>The scenario of a lock with "Abc123!"\<close>






section \<open>States used to evaluate scenarios\<close>

text \<open>Whether the next operation on the table rejects.\<close>

definition next_io_rejects :: "DatabaseService \<Rightarrow> bool" where
  "next_io_rejects s \<longleftrightarrow> fst (io s)"

text \<open>
  The state after one table operation, and whether none of the next \<open>n\<close> table
  operations rejects.
\<close>

definition io_done :: "DatabaseService \<Rightarrow> DatabaseService" where
  "io_done s = s\<lparr>io_faults := tl (io_faults s)\<rparr>"

fun io_ok :: "nat \<Rightarrow> DatabaseService \<Rightarrow> bool" where
  "io_ok 0 s = True"
| "io_ok (Suc n) s = (\<not> next_io_rejects s \<and> io_ok n (io_done s))"

text \<open>The database service as its constructor leaves it, over an empty table.\<close>

definition empty_database :: DatabaseService where
  "empty_database =
     \<lparr>db_notes = [], notesCache = Map.empty, allNotesCache = None, cacheTimestamp = 0,
      io_faults = []\<rparr>"

text \<open>A note as \<open>createNote\<close> builds it on the small platform, at time \<open>t\<close>.\<close>

definition plain_note :: "string \<Rightarrow> string \<Rightarrow> string \<Rightarrow> int \<Rightarrow> Note" where
  "plain_note k ttl cont t =
     \<lparr>note_id = k, title = ttl, content = cont,
      plainTextContent = Some (strip_tags False cont),
      isPinned = False, isEncrypted = False, hasBeenEncrypted = False,
      encryptedData = None, tags = [], createdAt = t, updatedAt = t,
      lastAccessedAt = Some t, version = None, versions = None, aiMetadata = None\<rparr>"

text \<open>A database whose list of all notes was cached at time 5000.\<close>

definition cached_database :: DatabaseService where
  "cached_database =
     \<lparr>db_notes = [plain_note ''n1'' ''Old'' ''old text'' 1000],
      notesCache = Map.empty,
      allNotesCache = Some [plain_note ''n1'' ''Old'' ''old text'' 1000],
      cacheTimestamp = 5000, io_faults = []\<rparr>"

text \<open>A database over one stored note whose next table operation rejects.\<close>

definition failing_database :: DatabaseService where
  "failing_database =
     \<lparr>db_notes = [plain_note ''n1'' ''Old'' ''old text'' 1000],
      notesCache = Map.empty, allNotesCache = None, cacheTimestamp = 0,
      io_faults = [True]\<rparr>"

text \<open>The random draws used in the scenarios.\<close>

definition sample_entropy :: Entropy where
  "sample_entropy = \<lparr>r_salt = ''s1'', r_content = ''r1'', r_title = ''r2''\<rparr>"

section \<open>Version numbers\<close>

text \<open>The counter \<open>note.version || 0\<close> and the list \<open>note.versions || []\<close>.\<close>

definition versionCounter :: "Note \<Rightarrow> int" where
  "versionCounter note = (case version note of None \<Rightarrow> 0 | Some n \<Rightarrow> n)"

definition versionList :: "Note \<Rightarrow> NoteVersion list" where
  "versionList note = (case versions note of None \<Rightarrow> [] | Some vs \<Rightarrow> vs)"

text \<open>No version of the note has a number above the note's counter.\<close>

definition numbers_bounded :: "Note \<Rightarrow> bool" where
  "numbers_bounded note \<longleftrightarrow>
     list_all (\<lambda>v. versionNumber v \<le> versionCounter note) (versionList note)"

text \<open>
  The number the specification gives to the next version: the maximum of the numbers
  of the existing versions, 0 when there is none, plus 1.
\<close>

definition spec_next_versionNumber :: "Note \<Rightarrow> int" where
  "spec_next_versionNumber note = fold max (map versionNumber (versionList note)) 0 + 1"

text \<open>
  A note is created, two versions of it are created, and the second one is deleted.
\<close>

definition version_scenario :: DatabaseService where
  "version_scenario =
     (let s0 = fst (createNote small_platform ''n1'' 1000 ''A'' ''hello'' empty_database);
          s1 = fst (createVersion ''v1'' 2000 ''n1'' ''hello'' ''A'' s0);
          s2 = fst (createVersion ''v2'' 3000 ''n1'' ''hello world'' ''A'' s1)
      in fst (deleteVersion ''n1'' ''v2'' s2))"

definition note_after_delete :: Note where
  "note_after_delete =
     (plain_note ''n1'' ''A'' ''hello'' 1000)
       \<lparr>version := Some 2,
        versions := Some [\<lparr>v_id = ''v1'', v_noteId = ''n1'', v_content = ''hello'',
                           v_title = ''A'', v_timestamp = 2000, versionNumber = 1\<rparr>]\<rparr>"

text \<open>
  A stored note with two versions, neither of which has the title or the content
  the note has now; the fourth table operation to come rejects.
\<close>

definition first_version :: NoteVersion where
  "first_version = \<lparr>v_id = ''v1'', v_noteId = ''n1'', v_content = ''<b>hello</b>'',
                     v_title = ''A'', v_timestamp = 2000, versionNumber = 1\<rparr>"

definition second_version :: NoteVersion where
  "second_version = \<lparr>v_id = ''v2'', v_noteId = ''n1'', v_content = ''<i>hello w</i>'',
                      v_title = ''A2'', v_timestamp = 3000, versionNumber = 2\<rparr>"

definition live_note :: Note where
  "live_note =
     (plain_note ''n1'' ''B'' ''<p>hello world</p>'' 1000)
       \<lparr>updatedAt := 4000, version := Some 2,
        versions := Some [first_version, second_version]\<rparr>"

definition restore_database :: DatabaseService where
  "restore_database =
     \<lparr>db_notes = [live_note], notesCache = Map.empty, allNotesCache = None,
      cacheTimestamp = 0, io_faults = [False, False, False, True]\<rparr>"


section \<open>Cache coherence and the lock scenarios\<close>

text \<open>Every note of the point cache is the note the table holds under that id.\<close>

definition cache_coherent :: "DatabaseService \<Rightarrow> bool" where
  "cache_coherent s \<longleftrightarrow>
     (\<forall>k note. notesCache s k = Some note \<longrightarrow> table_get k (db_notes s) = Some note)"

text \<open>A note at rest, a note with markup, and that note locked with "Abc123!".\<close>

definition read_scenario :: DatabaseService where
  "read_scenario = fst (createNote small_platform ''n1'' 1000 ''A'' ''hello'' empty_database)"

definition secret_scenario :: DatabaseService where
  "secret_scenario =
     fst (createNote small_platform ''n1'' 1000 ''T'' ''<p>secret</p>'' empty_database)"

definition locked_scenario :: App where
  "locked_scenario =
     \<lparr>database = fst (ns_encryptNote small_platform sample_entropy 2000 ''n1'' ''Abc123!''
                        secret_scenario),
      sessionPasswords = Map.empty\<rparr>"

definition locked_note :: Note where
  "locked_note =
     (plain_note ''n1'' ''T'' ''<p>secret</p>'' 1000)
       \<lparr>isEncrypted := True, hasBeenEncrypted := True,
        encryptedData := Some ''Abc123!s1<p>secret</p>|Abc123!s1T|s1'',
        content := [], updatedAt := 2000\<rparr>"


section \<open>The auto-save hook: invariant and bursts\<close>

text \<open>
  Every armed timeout is the one whose handle the hook holds. A burst is a sequence
  of edits each of which arrives before any armed timeout is due. \<open>saved_at t\<close> is
  the hook after a save that resolved at time \<open>t\<close>, with nothing pending; in the
  scenarios a save resolves 20 ms after it was started.
\<close>

definition armed_ok :: "AutoSave \<Rightarrow> bool" where
  "armed_ok a \<longleftrightarrow> list_all (\<lambda>tm. timeoutRef a = Some (fst tm)) (timers a)"

fun burst ::
  "(Note \<Rightarrow> nat option) \<Rightarrow> Options \<Rightarrow> (int \<times> Note) list \<Rightarrow> AutoSave \<Rightarrow> bool" where
  "burst persist opts [] a = True"
| "burst persist opts ((t, n) # es) a =
     (list_all (\<lambda>tm. t < snd tm) (timers a)
      \<and> burst persist opts es (scheduleSave opts t n (advance persist t a)))"

definition saved_at :: "int \<Rightarrow> AutoSave" where
  "saved_at t = initialAutoSave\<lparr>lastSaveRef := t\<rparr>"

definition save_in_20ms :: "Note \<Rightarrow> nat option" where
  "save_in_20ms n = Some 20"

definition note_A :: Note where "note_A = plain_note ''n1'' ''A'' ''h'' 1000"
definition note_B :: Note where "note_B = plain_note ''n1'' ''A'' ''he'' 1000"
definition note_C :: Note where "note_C = plain_note ''n1'' ''A'' ''hel'' 1000"


section \<open>The table and the sort\<close>

lemma set_insert_sorted: "set (insert_sorted cmp x ys) = insert x (set ys)"
  by (induction ys) auto

lemma set_sort_by: "set (sort_by cmp xs) = set xs"
  unfolding sort_by_def by (induction xs) (simp_all add: set_insert_sorted)

lemma set_table_put: "set (table_put n t) = insert n {m \<in> set t. note_id m \<noteq> note_id n}"
  unfolding table_put_def by (auto simp: set_insort_key)

lemma table_put_unique: "m \<in> set (table_put n t) \<Longrightarrow> note_id m = note_id n \<Longrightarrow> m = n"
  by (auto simp: set_table_put)

section \<open>The database service: one table operation\<close>

lemma io_cases:
  "io s = (next_io_rejects s, s\<lparr>io_faults := tl (io_faults s)\<rparr>)"
  unfolding io_def next_io_rejects_def by (cases "io_faults s") (auto simp: io_def)

lemma saveNote_ok:
  "\<not> next_io_rejects s \<Longrightarrow>
   saveNote note s =
     (s\<lparr>db_notes := table_put note (db_notes s),
        notesCache := (notesCache s)(note_id note \<mapsto> note),
        allNotesCache := None, cacheTimestamp := 0,
        io_faults := tl (io_faults s)\<rparr>, Inr ())"
  by (simp add: saveNote_def db_put_def io_cases invalidateAllNotesCache_def)

lemma saveNote_rejected:
  "next_io_rejects s \<Longrightarrow> saveNote note s = (s\<lparr>io_faults := tl (io_faults s)\<rparr>, Inl StorageError)"
  by (simp add: saveNote_def db_put_def io_cases)

lemma saveNote_result:
  "snd (saveNote note s) = Inr () \<longleftrightarrow> \<not> next_io_rejects s"
  by (cases "next_io_rejects s") (simp_all add: saveNote_ok saveNote_rejected)

lemma deleteNote_rejected:
  "next_io_rejects s \<Longrightarrow> deleteNote k s = (s\<lparr>io_faults := tl (io_faults s)\<rparr>, Inl StorageError)"
  by (simp add: deleteNote_def db_delete_def io_cases)

lemma getAllNotes_reload:
  "allNotesCache s = None \<Longrightarrow> \<not> next_io_rejects s \<Longrightarrow>
   snd (getAllNotes now s) = sort_by compareNotes (db_notes s)"
  by (simp add: getAllNotes_def db_toArray_def io_cases Let_def)

lemma getAllNotes_rejected:
  "allNotesCache s = None \<Longrightarrow> next_io_rejects s \<Longrightarrow>
   getAllNotes now s = (s\<lparr>io_faults := tl (io_faults s)\<rparr>, [])"
  by (simp add: getAllNotes_def db_toArray_def io_cases)

lemma getNote_hit:
  "notesCache s k = Some n \<Longrightarrow> getNote k s = (s, Some n)"
  by (simp add: getNote_def)

lemma getNote_miss_rejected:
  "notesCache s k = None \<Longrightarrow> next_io_rejects s \<Longrightarrow>
   getNote k s = (s\<lparr>io_faults := tl (io_faults s)\<rparr>, None)"
  by (simp add: getNote_def db_get_def io_cases)

section \<open>C4: a save shows in the next list of all notes\<close>

text \<open>
  Claim C4. After \<open>saveNote note\<close> has succeeded, the next \<open>getAllNotes\<close>, at
  whatever time \<open>now\<close> it is called (so also within the five minutes for which a
  cached list is served) and provided its read of the table does not reject,
  returns a list that holds the saved note, holds no other note with that id, and is
  the sorted content of the table after the write: the save has emptied the list
  cache and written through.
\<close>

theorem C4_getAll_after_save:
  assumes "snd (saveNote note s) = Inr ()"
    and "\<not> next_io_rejects (fst (saveNote note s))"
  shows "note \<in> set (snd (getAllNotes now (fst (saveNote note s))))
       \<and> (\<forall>m \<in> set (snd (getAllNotes now (fst (saveNote note s)))).
             note_id m = note_id note \<longrightarrow> m = note)
       \<and> snd (getAllNotes now (fst (saveNote note s)))
           = sort_by compareNotes (table_put note (db_notes s))
       \<and> allNotesCache (fst (saveNote note s)) = None"
proof -
  from assms(1) have ok: "\<not> next_io_rejects s" by (simp add: saveNote_result)
  let ?s' = "fst (saveNote note s)"
  have c: "allNotesCache ?s' = None" and t: "db_notes ?s' = table_put note (db_notes s)"
    using ok by (simp_all add: saveNote_ok)
  have r: "snd (getAllNotes now ?s') = sort_by compareNotes (table_put note (db_notes s))"
    using getAllNotes_reload [OF c assms(2)] t by simp
  show ?thesis
    unfolding r using c by (auto simp: set_sort_by set_table_put)
qed

text \<open>
  The list cached at time 5000 is still served at time 6000; after a save at that
  point the list returned at time 6000 holds the new note.
\<close>

lemma cached_list_is_served:
  "snd (getAllNotes 6000 cached_database) = [plain_note ''n1'' ''Old'' ''old text'' 1000]"
  by (simp add: getAllNotes_def cached_database_def CACHE_TTL_def)

theorem C4_getAll_after_save_witness:
  "snd (saveNote (plain_note ''n2'' ''New'' ''new text'' 5500) cached_database) = Inr ()
   \<and> \<not> next_io_rejects (fst (saveNote (plain_note ''n2'' ''New'' ''new text'' 5500) cached_database))
   \<and> plain_note ''n2'' ''New'' ''new text'' 5500
       \<in> set (snd (getAllNotes 6000
                 (fst (saveNote (plain_note ''n2'' ''New'' ''new text'' 5500) cached_database))))"
proof -
  have h1: "snd (saveNote (plain_note ''n2'' ''New'' ''new text'' 5500) cached_database) = Inr ()"
    by (simp add: saveNote_result next_io_rejects_def io_def cached_database_def)
  have h2: "\<not> next_io_rejects (fst (saveNote (plain_note ''n2'' ''New'' ''new text'' 5500) cached_database))"
    by (simp add: saveNote_def db_put_def io_def cached_database_def next_io_rejects_def
          invalidateAllNotesCache_def)
  from C4_getAll_after_save [OF h1 h2, of 6000] h1 h2 show ?thesis by blast
qed

section \<open>C5: a failing read degrades, a failing write surfaces\<close>

text \<open>
  Claim C5. When the table operation rejects: \<open>getNote\<close> returns what the point
  cache holds for the id, so "not found" for every id that is not cached (the
  rejection is not propagated; the type of \<open>getNote\<close> has no error), and
  \<open>getAllNotes\<close> without a cached list returns the empty list; \<open>saveNote\<close> returns
  the error to its caller and leaves the table and both caches as they were, and so
  does \<open>deleteNote\<close>.
\<close>

theorem C5_read_degrades_write_surfaces:
  assumes "next_io_rejects s"
  shows "snd (getNote k s) = notesCache s k
       \<and> (notesCache s k = None \<longrightarrow> snd (getNote k s) = None)
       \<and> (allNotesCache s = None \<longrightarrow> snd (getAllNotes now s) = [])
       \<and> snd (saveNote note s) = Inl StorageError
       \<and> db_notes (fst (saveNote note s)) = db_notes s
       \<and> notesCache (fst (saveNote note s)) = notesCache s
       \<and> allNotesCache (fst (saveNote note s)) = allNotesCache s
       \<and> snd (deleteNote k s) = Inl StorageError
       \<and> db_notes (fst (deleteNote k s)) = db_notes s"
proof -
  have g: "snd (getNote k s) = notesCache s k"
  proof (cases "notesCache s k")
    case None
    then show ?thesis using assms by (simp add: getNote_miss_rejected)
  next
    case (Some n)
    then show ?thesis by (simp add: getNote_hit)
  qed
  show ?thesis
    using assms g by (simp add: getAllNotes_rejected saveNote_rejected deleteNote_rejected)
qed

theorem C5_read_degrades_write_surfaces_witness:
  "next_io_rejects failing_database
   \<and> snd (getNote ''n1'' failing_database) = None
   \<and> snd (saveNote (plain_note ''n1'' ''New'' ''new text'' 2000) failing_database)
       = Inl StorageError"
proof -
  have h: "next_io_rejects failing_database"
    by (simp add: next_io_rejects_def io_def failing_database_def)
  have c: "notesCache failing_database ''n1'' = None"
    by (simp add: failing_database_def)
  from C5_read_degrades_write_surfaces
         [OF h, of "''n1''" 0 "plain_note ''n1'' ''New'' ''new text'' 2000"] h c
  show ?thesis by simp
qed

section \<open>The encryption service\<close>

lemma small_platform_inverts: "aes_inverts small_platform"
  by (simp add: aes_inverts_def small_platform_def)


lemma decrypt_of_encrypt:
  assumes "aes_inverts P"
  shows "decryptNote P (encryptedContent (encryptNote P rnd cont ttl password))
           (encryptedTitle (encryptNote P rnd cont ttl password)) password
           (salt (encryptNote P rnd cont ttl password))
         = (if cont = [] \<or> ttl = [] then Inl DecryptFailed
            else Inr \<lparr>d_content = cont, d_title = ttl\<rparr>)"
  using assms by (simp add: decryptNote_def encryptNote_def Let_def aes_inverts_def)

text \<open>
  On every platform whose AES decryption inverts its encryption, a note with an empty
  title or an empty content cannot be unlocked with the password that locked it.
\<close>

lemma empty_field_never_round_trips:
  assumes "aes_inverts P" and "cont = [] \<or> ttl = []"
  shows "decryptNote P (encryptedContent (encryptNote P rnd cont ttl password))
           (encryptedTitle (encryptNote P rnd cont ttl password)) password
           (salt (encryptNote P rnd cont ttl password))
         = Inl DecryptFailed"
  using assms by (simp add: decrypt_of_encrypt)

section \<open>C1: lock, then unlock with the same password\<close>

text \<open>
  Claim C1, as the code has it. For every password, every non-empty title and every
  non-empty content, and whatever random bytes the encryption draws: encrypting with
  \<open>encryptNote\<close> and decrypting the two ciphertexts with \<open>decryptNote\<close>, the same
  password and the returned salt gives back exactly the title and the content
  (where AES decryption inverts AES encryption under the same key).
\<close>

theorem C1_round_trip_nonempty:
  assumes "aes_inverts P" and "cont \<noteq> []" and "ttl \<noteq> []"
  shows "decryptNote P (encryptedContent (encryptNote P rnd cont ttl password))
           (encryptedTitle (encryptNote P rnd cont ttl password)) password
           (salt (encryptNote P rnd cont ttl password))
         = Inr \<lparr>d_content = cont, d_title = ttl\<rparr>"
  using assms by (simp add: decrypt_of_encrypt)

theorem C1_round_trip_nonempty_witness:
  "aes_inverts small_platform \<and> ''C'' \<noteq> [] \<and> ''T'' \<noteq> []
   \<and> decryptNote small_platform
        (encryptedContent (encryptNote small_platform sample_entropy ''C'' ''T'' ''Abc123!''))
        (encryptedTitle (encryptNote small_platform sample_entropy ''C'' ''T'' ''Abc123!''))
        ''Abc123!''
        (salt (encryptNote small_platform sample_entropy ''C'' ''T'' ''Abc123!''))
      = Inr \<lparr>d_content = ''C'', d_title = ''T''\<rparr>"
proof -
  have h1: "aes_inverts small_platform" by (rule small_platform_inverts)
  have h2: "''C'' \<noteq> []" and h3: "''T'' \<noteq> []" by simp_all
  from C1_round_trip_nonempty [OF h1 h2 h3, of sample_entropy "''Abc123!''"] h1
  show ?thesis by simp
qed

text \<open>
  Claim C1 as stated fails for the empty content (the content of a note that
  \<open>createNote\<close> builds by default): the decrypted content is the empty string,
  which \<open>decryptNote\<close> takes for a wrong password.
\<close>

theorem C1_empty_content_counterexample:
  "decryptNote small_platform
     (encryptedContent (encryptNote small_platform sample_entropy '''' ''T'' ''Abc123!''))
     (encryptedTitle (encryptNote small_platform sample_entropy '''' ''T'' ''Abc123!''))
     ''Abc123!''
     (salt (encryptNote small_platform sample_entropy '''' ''T'' ''Abc123!''))
   = Inl DecryptFailed"
  by (simp add: decryptNote_def encryptNote_def deriveKey_def small_platform_def
        sample_entropy_def Let_def)

text \<open>
  When the decryption of a stored envelope fails, the note service reports
  \<open>'Invalid password'\<close> and stores no session password.
\<close>

lemma ns_decryptNote_refused:
  assumes "snd (getNote k (database a)) = Some nt"
    and "isEncrypted nt" and "encryptedData nt = Some json" and "json \<noteq> []"
    and "JSON_parse P json = Some encData"
    and "decryptNote P (env_content encData) (env_title encData) password (env_salt encData)
           = Inl e"
  shows "snd (ns_decryptNote P k password a) = Inl InvalidPassword"
    and "sessionPasswords (fst (ns_decryptNote P k password a)) = sessionPasswords a"
  using assms
  by (cases "getNote k (database a)"; simp add: ns_decryptNote_def Let_def)+

section \<open>C3: the outcomes of unlock\<close>



text \<open>
  The model of the cipher computes the digest and the ciphertext of the standards:
  the MD5 of "abc" (RFC 1321) and the AES-256 example of FIPS 197 (appendix C.3).
\<close>

lemma MD5_test_vector:
  "MD5 (Utf8_parse ''abc'')
   = [144, 1, 80, 152, 60, 210, 79, 176, 214, 150, 63, 125, 40, 225, 127, 114]"
  by code_simp

lemma AES256_test_vector:
  "encryptBlock (keySchedule (map int [0..<32]))
     [0, 17, 34, 51, 68, 85, 102, 119, 136, 153, 170, 187, 204, 221, 238, 255]
   = [142, 162, 183, 202, 81, 103, 69, 191, 234, 252, 73, 144, 75, 73, 96, 137]"
  by code_simp

lemma AES256_test_vector_inverse:
  "decryptBlock (keySchedule (map int [0..<32]))
     [142, 162, 183, 202, 81, 103, 69, 191, 234, 252, 73, 144, 75, 73, 96, 137]
   = [0, 17, 34, 51, 68, 85, 102, 119, 136, 153, 170, 187, 204, 221, 238, 255]"
  by code_simp








section \<open>The table as a map, and reads through the point cache\<close>

lemma find_insort_key_new:
  "P n \<Longrightarrow> \<forall>m \<in> set xs. \<not> P m \<Longrightarrow> find P (insort_key f n xs) = Some n"
  by (induction xs) auto

lemma find_insort_key_other:
  "\<not> P n \<Longrightarrow> find P (insort_key f n xs) = find P xs"
  by (induction xs) auto

lemma find_filter_keep:
  "(\<And>m. P m \<Longrightarrow> R m) \<Longrightarrow> find P (filter R xs) = find P xs"
  by (induction xs) auto

lemma table_get_put: "table_get (note_id n) (table_put n t) = Some n"
  unfolding table_get_def table_put_def by (rule find_insort_key_new) auto

lemma table_get_put_other: "k \<noteq> note_id n \<Longrightarrow> table_get k (table_put n t) = table_get k t"
  unfolding table_get_def table_put_def
  by (simp add: find_insort_key_other find_filter_keep)

lemma stored_after_save:
  "\<not> next_io_rejects s \<Longrightarrow> table_get (note_id n) (db_notes (fst (saveNote n s))) = Some n"
  by (simp add: saveNote_ok table_get_put)

lemma getNote_miss:
  "notesCache s k = None \<Longrightarrow>
   getNote k s =
     (if next_io_rejects s then (s\<lparr>io_faults := tl (io_faults s)\<rparr>, None)
      else case table_get k (db_notes s) of
             None \<Rightarrow> (s\<lparr>io_faults := tl (io_faults s)\<rparr>, None)
           | Some note \<Rightarrow>
               (s\<lparr>io_faults := tl (io_faults s), notesCache := (notesCache s)(k \<mapsto> note)\<rparr>,
                Some note))"
  by (simp add: getNote_def db_get_def io_cases split: option.splits)

lemma getNote_Some:
  assumes "getNote k s = (s1, Some note)"
  shows "notesCache s1 k = Some note" and "db_notes s1 = db_notes s"
    and "allNotesCache s1 = allNotesCache s" and "cacheTimestamp s1 = cacheTimestamp s"
proof -
  have "notesCache s1 k = Some note \<and> db_notes s1 = db_notes s
        \<and> allNotesCache s1 = allNotesCache s \<and> cacheTimestamp s1 = cacheTimestamp s"
  proof (cases "notesCache s k")
    case None
    with assms show ?thesis
      by (auto simp: getNote_miss split: if_splits option.splits)
  next
    case (Some n)
    with assms show ?thesis by (auto simp: getNote_hit)
  qed
  then show "notesCache s1 k = Some note" and "db_notes s1 = db_notes s"
    and "allNotesCache s1 = allNotesCache s" and "cacheTimestamp s1 = cacheTimestamp s"
    by simp_all
qed

lemma getNote_None:
  assumes "getNote k s = (s1, None)"
  shows "db_notes s1 = db_notes s" and "notesCache s1 = notesCache s"
proof -
  have "db_notes s1 = db_notes s \<and> notesCache s1 = notesCache s"
  proof (cases "notesCache s k")
    case None
    with assms show ?thesis
      by (auto simp: getNote_miss split: if_splits option.splits)
  next
    case (Some n)
    with assms show ?thesis by (auto simp: getNote_hit)
  qed
  then show "db_notes s1 = db_notes s" and "notesCache s1 = notesCache s" by simp_all
qed

lemma getNote_table: "db_notes (fst (getNote k s)) = db_notes s"
proof (cases "getNote k s")
  case (Pair s1 r)
  then show ?thesis
    by (cases r) (simp_all add: getNote_None(1) getNote_Some(2))
qed

lemma getNote_again:
  assumes "snd (getNote k s) = Some note"
  shows "getNote k (fst (getNote k s)) = (fst (getNote k s), Some note)"
proof (cases "getNote k s")
  case (Pair s1 r)
  with assms have "getNote k s = (s1, Some note)" by simp
  from getNote_Some(1) [OF this] Pair show ?thesis by (simp add: getNote_hit)
qed

section \<open>C2: the number of a new version\<close>

lemma createVersion_effect:
  assumes "snd (getNote k s) = Some note" and "\<not> next_io_rejects (fst (getNote k s))"
  shows "createVersion uuid now k cont ttl s =
           (fst (saveNote
                  (note\<lparr>version := Some (versionCounter note + 1),
                        versions := Some (versionList note
                          @ [\<lparr>v_id = uuid, v_noteId = k, v_content = cont, v_title = ttl,
                               v_timestamp = now, versionNumber = versionCounter note + 1\<rparr>])\<rparr>)
                  (fst (getNote k s))),
            Inr (Some \<lparr>v_id = uuid, v_noteId = k, v_content = cont, v_title = ttl,
                       v_timestamp = now, versionNumber = versionCounter note + 1\<rparr>))"
  using assms
  by (cases "getNote k s")
     (simp add: createVersion_def Let_def saveNote_ok versionCounter_def versionList_def)

lemma deleteVersion_effect:
  assumes "snd (getNote k s) = Some note" and "\<not> next_io_rejects (fst (getNote k s))"
    and "versions note = Some vs"
  shows "deleteVersion k versionId s =
           (fst (saveNote (note\<lparr>versions := Some (filter (\<lambda>v. v_id v \<noteq> versionId) vs)\<rparr>)
                  (fst (getNote k s))),
            Inr True)"
  using assms by (cases "getNote k s") (simp add: deleteVersion_def Let_def saveNote_ok)

text \<open>
  Claim C2, as the code has it. When \<open>createVersion\<close> finds the note and its write
  succeeds, the new version has the number \<open>(note.version || 0) + 1\<close>, the stored note
  has that number as its counter and the new version at the end of its list; when no
  existing version has a number above the counter, the new number is greater than
  all of them and the stored note keeps that property. \<open>deleteVersion\<close> stores the
  note with the version removed from the list and the counter as it was. So after a
  deletion the next version continues from the counter: not from the count of the
  remaining versions, and not from their maximum either.
\<close>

theorem C2_version_number_from_counter:
  assumes "snd (getNote k s) = Some note" and "\<not> next_io_rejects (fst (getNote k s))"
  shows "(\<exists>s2 ver note'. createVersion uuid now k cont ttl s = (s2, Inr (Some ver))
           \<and> versionNumber ver = versionCounter note + 1
           \<and> table_get (note_id note) (db_notes s2) = Some note'
           \<and> versionCounter note' = versionNumber ver
           \<and> versionList note' = versionList note @ [ver]
           \<and> (numbers_bounded note \<longrightarrow>
                numbers_bounded note'
                \<and> (\<forall>v \<in> set (versionList note). versionNumber v < versionNumber ver)))
       \<and> (\<forall>vs. versions note = Some vs \<longrightarrow>
           (\<exists>s2 note'. deleteVersion k versionId s = (s2, Inr True)
             \<and> table_get (note_id note) (db_notes s2) = Some note'
             \<and> versionCounter note' = versionCounter note
             \<and> versionList note' = filter (\<lambda>v. v_id v \<noteq> versionId) vs
             \<and> (numbers_bounded note \<longrightarrow> numbers_bounded note')))"
proof (intro conjI allI impI)
  let ?ver = "\<lparr>v_id = uuid, v_noteId = k, v_content = cont, v_title = ttl,
               v_timestamp = now, versionNumber = versionCounter note + 1\<rparr>"
  let ?n' = "note\<lparr>version := Some (versionCounter note + 1),
                  versions := Some (versionList note @ [?ver])\<rparr>"
  have c: "createVersion uuid now k cont ttl s
          = (fst (saveNote ?n' (fst (getNote k s))), Inr (Some ?ver))"
    by (rule createVersion_effect [OF assms])
  have t: "table_get (note_id note) (db_notes (fst (saveNote ?n' (fst (getNote k s)))))
             = Some ?n'"
    using stored_after_save [OF assms(2), of ?n'] by simp
  have b: "numbers_bounded note \<longrightarrow>
             numbers_bounded ?n'
             \<and> (\<forall>v \<in> set (versionList note). versionNumber v < versionNumber ?ver)"
    by (auto simp: numbers_bounded_def versionCounter_def versionList_def list_all_iff)
  have f: "versionCounter ?n' = versionNumber ?ver"
    "versionList ?n' = versionList note @ [?ver]"
    by (simp_all add: versionCounter_def versionList_def)
  show "\<exists>s2 ver note'. createVersion uuid now k cont ttl s = (s2, Inr (Some ver))
           \<and> versionNumber ver = versionCounter note + 1
           \<and> table_get (note_id note) (db_notes s2) = Some note'
           \<and> versionCounter note' = versionNumber ver
           \<and> versionList note' = versionList note @ [ver]
           \<and> (numbers_bounded note \<longrightarrow>
                numbers_bounded note'
                \<and> (\<forall>v \<in> set (versionList note). versionNumber v < versionNumber ver))"
    using c t b f by (intro exI [of _ "fst (saveNote ?n' (fst (getNote k s)))"]
        exI [of _ ?ver] exI [of _ ?n']) simp
next
  fix vs
  assume vs: "versions note = Some vs"
  let ?n' = "note\<lparr>versions := Some (filter (\<lambda>v. v_id v \<noteq> versionId) vs)\<rparr>"
  have d: "deleteVersion k versionId s = (fst (saveNote ?n' (fst (getNote k s))), Inr True)"
    by (rule deleteVersion_effect [OF assms vs])
  have t: "table_get (note_id note) (db_notes (fst (saveNote ?n' (fst (getNote k s)))))
             = Some ?n'"
    using stored_after_save [OF assms(2), of ?n'] by simp
  have b: "numbers_bounded note \<longrightarrow> numbers_bounded ?n'"
    using vs by (auto simp: numbers_bounded_def versionCounter_def versionList_def list_all_iff)
  show "\<exists>s2 note'. deleteVersion k versionId s = (s2, Inr True)
           \<and> table_get (note_id note) (db_notes s2) = Some note'
           \<and> versionCounter note' = versionCounter note
           \<and> versionList note' = filter (\<lambda>v. v_id v \<noteq> versionId) vs
           \<and> (numbers_bounded note \<longrightarrow> numbers_bounded note')"
    using d t b
    by (intro exI [of _ "fst (saveNote ?n' (fst (getNote k s)))"] exI [of _ ?n'])
       (simp add: versionCounter_def versionList_def)
qed

lemma version_scenario_note:
  "snd (getNote ''n1'' version_scenario) = Some note_after_delete"
  by code_simp

lemma version_scenario_io: "\<not> next_io_rejects (fst (getNote ''n1'' version_scenario))"
  by code_simp

theorem C2_version_number_from_counter_witness:
  "snd (getNote ''n1'' version_scenario) = Some note_after_delete
   \<and> \<not> next_io_rejects (fst (getNote ''n1'' version_scenario))
   \<and> (\<exists>s2 ver. createVersion ''v3'' 5000 ''n1'' ''hello again'' ''A'' version_scenario
                  = (s2, Inr (Some ver))
        \<and> versionNumber ver = 3)"
proof -
  have c: "versionCounter note_after_delete = 2"
    by (simp add: versionCounter_def note_after_delete_def)
  from C2_version_number_from_counter
         [OF version_scenario_note version_scenario_io,
          of "''v3''" 5000 "''hello again''" "''A''" "''v2''"]
  have "\<exists>s2 ver. createVersion ''v3'' 5000 ''n1'' ''hello again'' ''A'' version_scenario
                  = (s2, Inr (Some ver))
        \<and> versionNumber ver = versionCounter note_after_delete + 1"
    by blast
  with c version_scenario_note version_scenario_io show ?thesis by simp
qed

text \<open>
  Claim C2 as stated fails after the newest version has been deleted: the note is
  left with the one version numbered 1, so the maximum plus one is 2, and the next
  version created is numbered 3.
\<close>

theorem C2_max_plus_one_counterexample:
  "snd (getNote ''n1'' version_scenario) = Some note_after_delete
   \<and> map versionNumber (versionList note_after_delete) = [1]
   \<and> spec_next_versionNumber note_after_delete = 2
   \<and> snd (createVersion ''v3'' 5000 ''n1'' ''hello again'' ''A'' version_scenario)
       = Inr (Some \<lparr>v_id = ''v3'', v_noteId = ''n1'', v_content = ''hello again'',
                    v_title = ''A'', v_timestamp = 5000, versionNumber = 3\<rparr>)"
  by code_simp

section \<open>C8: restoring a version\<close>

lemma find_unique:
  assumes "x \<in> set xs" and "P x" and "\<And>y. y \<in> set xs \<Longrightarrow> P y \<Longrightarrow> y = x"
  shows "find P xs = Some x"
  using assms
proof (induction xs)
  case Nil
  from Nil(1) show ?case by simp
next
  case (Cons a xs)
  show ?case
  proof (cases "P a")
    case True
    have "a \<in> set (a # xs)" by simp
    from Cons.prems(3) [OF this True] have "a = x" .
    with True show ?thesis by simp
  next
    case False
    have "x \<noteq> a" using Cons.prems(2) False by metis
    with Cons.prems(1) have m: "x \<in> set xs" by simp
    have "find P xs = Some x"
    proof (rule Cons.IH [OF m Cons.prems(2)])
      fix y assume "y \<in> set xs" and p: "P y"
      then have "y \<in> set (a # xs)" by simp
      from Cons.prems(3) [OF this p] show "y = x" .
    qed
    with False show ?thesis by simp
  qed
qed

lemma io_not_rejected: "\<not> next_io_rejects s \<Longrightarrow> io s = (False, io_done s)"
  by (simp add: io_cases io_done_def)

lemma io_done_table: "db_notes (io_done s) = db_notes s"
  by (simp add: io_done_def)

lemma getNote_uncached_ok:
  assumes "\<not> next_io_rejects s"
  shows "getNote_uncached k s = (io_done s, table_get k (db_notes s))"
  using io_not_rejected [OF assms]
  by (simp add: getNote_uncached_def db_get_def io_done_table split: option.splits)

lemma saveNote_uncached_ok:
  assumes "\<not> next_io_rejects s"
  shows "saveNote_uncached nt s = ((io_done s)\<lparr>db_notes := table_put nt (db_notes s)\<rparr>, Inr ())"
  using io_not_rejected [OF assms]
  by (simp add: saveNote_uncached_def db_put_def io_done_table)

lemma restoreToVersion_effect:
  assumes "io_ok 3 s"
    and "table_get k (db_notes s) = Some nt"
    and "find (\<lambda>v. v_id v = versionId) (versionList nt) = Some ver"
  shows "restoreToVersion P now k versionId s =
           ((io_done (io_done (io_done s)))
              \<lparr>db_notes := table_put
                 (nt\<lparr>title := v_title ver, content := v_content ver,
                     plainTextContent := Some (extractPlainText P (v_content ver)),
                     updatedAt := now\<rparr>) (db_notes s)\<rparr>,
            Inr (Some (nt\<lparr>title := v_title ver, content := v_content ver,
                     plainTextContent := Some (extractPlainText P (v_content ver)),
                     updatedAt := now\<rparr>)))"
proof -
  from assms(1) have a1: "\<not> next_io_rejects s"
    and a2: "\<not> next_io_rejects (io_done s)"
    and a3: "\<not> next_io_rejects (io_done (io_done s))"
    by (simp_all add: eval_nat_numeral)
  have g1: "getNote_uncached k s = (io_done s, Some nt)"
    using getNote_uncached_ok [OF a1, of k] assms(2) by simp
  have g2: "getNote_uncached k (io_done s) = (io_done (io_done s), Some nt)"
    using getNote_uncached_ok [OF a2, of k] assms(2) by (simp add: io_done_table)
  have v: "getVersion k versionId s = (io_done s, Some ver)"
    using assms(3) by (simp add: getVersion_def getNoteVersions_def g1 versionList_def)
  show ?thesis
    by (simp add: restoreToVersion_def v g2 Let_def saveNote_uncached_ok [OF a3] io_done_table)
qed

text \<open>
  When the two reads succeed and the write rejects, \<open>restoreToVersion\<close> returns the
  error and the table is as it was.
\<close>

lemma restoreToVersion_write_rejected:
  assumes "\<not> next_io_rejects s" and "\<not> next_io_rejects (io_done s)"
    and "next_io_rejects (io_done (io_done s))"
    and "table_get k (db_notes s) = Some nt"
    and "find (\<lambda>v. v_id v = versionId) (versionList nt) = Some ver"
  shows "snd (restoreToVersion P now k versionId s) = Inl StorageError"
    and "db_notes (fst (restoreToVersion P now k versionId s)) = db_notes s"
proof -
  have g1: "getNote_uncached k s = (io_done s, Some nt)"
    using getNote_uncached_ok [OF assms(1), of k] assms(4) by simp
  have g2: "getNote_uncached k (io_done s) = (io_done (io_done s), Some nt)"
    using getNote_uncached_ok [OF assms(2), of k] assms(4) by (simp add: io_done_table)
  have v: "getVersion k versionId s = (io_done s, Some ver)"
    using assms(5) by (simp add: getVersion_def getNoteVersions_def g1 versionList_def)
  have w: "saveNote_uncached n (io_done (io_done s))
             = (io_done (io_done (io_done s)), Inl StorageError)" for n
    using assms(3)
    by (simp add: saveNote_uncached_def db_put_def io_cases io_done_def)
  show "snd (restoreToVersion P now k versionId s) = Inl StorageError"
    and "db_notes (fst (restoreToVersion P now k versionId s)) = db_notes s"
    by (simp_all add: restoreToVersion_def v g2 w Let_def io_done_table)
qed

text \<open>
  Claim C8. For a stored note, a version \<open>ver\<close> of its list (the only one with its
  id) and no rejection among the three table operations of the call (two reads and
  the write), \<open>restoreToVersion\<close> stores and returns the note with the title and the
  content of \<open>ver\<close>, the plain text computed from that content and \<open>updatedAt\<close> set
  to the time of the call, and with every other field as it was: in particular the
  list of versions and the version counter are unchanged, so the restore creates no
  version.
\<close>

theorem C8_restore_to_version:
  assumes "io_ok 3 s"
    and "table_get k (db_notes s) = Some note"
    and "ver \<in> set (versionList note)"
    and "\<forall>w \<in> set (versionList note). v_id w = v_id ver \<longrightarrow> w = ver"
  shows "\<exists>s3 restored.
           restoreToVersion P now k (v_id ver) s = (s3, Inr (Some restored))
         \<and> table_get k (db_notes s3) = Some restored
         \<and> title restored = v_title ver
         \<and> content restored = v_content ver
         \<and> plainTextContent restored = Some (extractPlainText P (content restored))
         \<and> updatedAt restored = now
         \<and> versions restored = versions note
         \<and> version restored = version note
         \<and> restored = note\<lparr>title := v_title ver, content := v_content ver,
                             plainTextContent := Some (extractPlainText P (v_content ver)),
                             updatedAt := now\<rparr>"
proof -
  let ?r = "note\<lparr>title := v_title ver, content := v_content ver,
                 plainTextContent := Some (extractPlainText P (v_content ver)),
                 updatedAt := now\<rparr>"
  have f: "find (\<lambda>v. v_id v = v_id ver) (versionList note) = Some ver"
  proof (rule find_unique [OF assms(3)])
    show "v_id ver = v_id ver" by simp
  next
    fix y assume "y \<in> set (versionList note)" and "v_id y = v_id ver"
    with assms(4) show "y = ver" by blast
  qed
  have i: "note_id note = k"
    using assms(2) by (auto simp: table_get_def find_Some_iff)
  have r: "restoreToVersion P now k (v_id ver) s
             = ((io_done (io_done (io_done s)))\<lparr>db_notes := table_put ?r (db_notes s)\<rparr>,
                Inr (Some ?r))"
    by (rule restoreToVersion_effect [OF assms(1,2) f])
  have t: "table_get k (table_put ?r (db_notes s)) = Some ?r"
    using table_get_put [of ?r "db_notes s"] i by simp
  show ?thesis
    using r t
    by (intro exI [of _ "(io_done (io_done (io_done s)))\<lparr>db_notes := table_put ?r (db_notes s)\<rparr>"]
          exI [of _ ?r]) simp
qed

text \<open>
  The note has the title "B" and the content \<open><p>hello world</p>\<close>; restoring its
  second version gives it the title, the content and the plain text of that version.
\<close>

lemma restore_database_ok: "io_ok 3 restore_database"
  by code_simp

lemma restore_database_note: "table_get ''n1'' (db_notes restore_database) = Some live_note"
  by code_simp

theorem C8_restore_to_version_witness:
  "io_ok 3 restore_database
   \<and> table_get ''n1'' (db_notes restore_database) = Some live_note
   \<and> title live_note = ''B'' \<and> content live_note = ''<p>hello world</p>''
   \<and> plainTextContent live_note = Some ''hello world'' \<and> updatedAt live_note = 4000
   \<and> second_version \<in> set (versionList live_note)
   \<and> (\<exists>s3 restored.
         restoreToVersion small_platform 7000 ''n1'' ''v2'' restore_database
           = (s3, Inr (Some restored))
       \<and> table_get ''n1'' (db_notes s3) = Some restored
       \<and> title restored = ''A2'' \<and> content restored = ''<i>hello w</i>''
       \<and> plainTextContent restored = Some ''hello w''
       \<and> updatedAt restored = 7000
       \<and> versions restored = Some [first_version, second_version]
       \<and> version restored = Some 2)"
proof -
  have l: "title live_note = ''B''" "content live_note = ''<p>hello world</p>''"
    "plainTextContent live_note = Some ''hello world''" "updatedAt live_note = 4000"
    by (simp_all add: live_note_def plain_note_def)
  have h3: "second_version \<in> set (versionList live_note)"
    by (simp add: versionList_def live_note_def)
  have h4: "\<forall>w \<in> set (versionList live_note). v_id w = v_id second_version \<longrightarrow> w = second_version"
    by (simp add: versionList_def live_note_def first_version_def second_version_def)
  have v: "v_id second_version = ''v2''" "v_title second_version = ''A2''"
    "v_content second_version = ''<i>hello w</i>''"
    by (simp_all add: second_version_def)
  have n: "versions live_note = Some [first_version, second_version]"
    "version live_note = Some 2"
    by (simp_all add: live_note_def)
  have x: "extractPlainText small_platform ''<i>hello w</i>'' = ''hello w''"
    by (simp add: extractPlainText_def small_platform_def)
  from C8_restore_to_version
         [OF restore_database_ok restore_database_note h3 h4, of small_platform 7000]
  obtain s3 restored where
    r: "restoreToVersion small_platform 7000 ''n1'' (v_id second_version) restore_database
          = (s3, Inr (Some restored))"
    and t: "table_get ''n1'' (db_notes s3) = Some restored"
    and e: "restored = live_note\<lparr>title := v_title second_version,
              content := v_content second_version,
              plainTextContent :=
                Some (extractPlainText small_platform (v_content second_version)),
              updatedAt := 7000\<rparr>"
    by (elim exE conjE)
  from e have f: "title restored = ''A2''" "content restored = ''<i>hello w</i>''"
    "plainTextContent restored = Some ''hello w''" "updatedAt restored = 7000"
    "versions restored = Some [first_version, second_version]"
    "version restored = Some 2"
    by (simp_all add: v n x)
  from r t f have "\<exists>s3 restored.
         restoreToVersion small_platform 7000 ''n1'' ''v2'' restore_database
           = (s3, Inr (Some restored))
       \<and> table_get ''n1'' (db_notes s3) = Some restored
       \<and> title restored = ''A2'' \<and> content restored = ''<i>hello w</i>''
       \<and> plainTextContent restored = Some ''hello w''
       \<and> updatedAt restored = 7000
       \<and> versions restored = Some [first_version, second_version]
       \<and> version restored = Some 2"
    unfolding v by (intro exI [of _ s3] exI [of _ restored] conjI)
  with restore_database_ok restore_database_note l h3 show ?thesis by simp
qed


section \<open>C10: unlocking writes nothing\<close>

lemma coherent_empty: "cache_coherent empty_database"
  by (simp add: cache_coherent_def empty_database_def)

lemma coherent_saveNote:
  assumes "cache_coherent s"
  shows "cache_coherent (fst (saveNote n s))"
proof (cases "next_io_rejects s")
  case True
  with assms show ?thesis by (simp add: saveNote_rejected cache_coherent_def)
next
  case False
  then have ok: "\<not> next_io_rejects s" .
  show ?thesis
    unfolding cache_coherent_def
  proof (intro allI impI)
    fix k nt
    assume c: "notesCache (fst (saveNote n s)) k = Some nt"
    show "table_get k (db_notes (fst (saveNote n s))) = Some nt"
    proof (cases "k = note_id n")
      case True
      with c ok show ?thesis by (simp add: saveNote_ok table_get_put)
    next
      case False
      with c ok have "notesCache s k = Some nt" by (simp add: saveNote_ok)
      with assms have "table_get k (db_notes s) = Some nt"
        by (simp add: cache_coherent_def)
      with False ok show ?thesis by (simp add: saveNote_ok table_get_put_other)
    qed
  qed
qed

lemma coherent_getNote:
  assumes "cache_coherent s"
  shows "cache_coherent (fst (getNote k s))"
proof (cases "notesCache s k")
  case None
  with assms show ?thesis
    by (auto simp: getNote_miss cache_coherent_def split: option.splits)
next
  case (Some n)
  with assms show ?thesis by (simp add: getNote_hit)
qed

lemma coherent_found:
  assumes "cache_coherent s" and "snd (getNote k s) = Some note"
  shows "table_get k (db_notes s) = Some note"
proof (cases "getNote k s")
  case (Pair s1 r)
  with assms(2) have g: "getNote k s = (s1, Some note)" by simp
  from coherent_getNote [OF assms(1), of k] Pair have "cache_coherent s1" by simp
  with getNote_Some(1) [OF g] have "table_get k (db_notes s1) = Some note"
    by (simp add: cache_coherent_def)
  with getNote_Some(2) [OF g] show ?thesis by simp
qed

lemma coherent_createNote:
  "cache_coherent s \<Longrightarrow> cache_coherent (fst (createNote P uuid now ttl cont s))"
proof -
  assume c: "cache_coherent s"
  let ?n = "\<lparr>note_id = uuid, title = ttl, content = cont,
              plainTextContent = Some (extractPlainText P cont),
              isPinned = False, isEncrypted = False, hasBeenEncrypted = False,
              encryptedData = None, tags = [], createdAt = now, updatedAt = now,
              lastAccessedAt = Some now, version = None, versions = None,
              aiMetadata = None\<rparr>"
  have "fst (createNote P uuid now ttl cont s) = fst (saveNote ?n s)"
    by (simp add: createNote_def Let_def split: prod.splits sum.splits)
  with coherent_saveNote [OF c, of ?n] show ?thesis by simp
qed

lemma coherent_ns_encryptNote:
  assumes "cache_coherent s"
  shows "cache_coherent (fst (ns_encryptNote P rnd now k password s))"
proof (cases "getNote k s")
  case (Pair s1 r)
  from coherent_getNote [OF assms, of k] Pair have c1: "cache_coherent s1" by simp
  show ?thesis
  proof (cases r)
    case None
    with Pair c1 show ?thesis by (simp add: ns_encryptNote_def)
  next
    case (Some nt)
    let ?enc = "encryptNote P rnd (content nt) (title nt) password"
    let ?n' = "nt\<lparr>isEncrypted := True, hasBeenEncrypted := True,
                   encryptedData := Some (JSON_stringify P
                     \<lparr>env_content = encryptedContent ?enc, env_title = encryptedTitle ?enc,
                      env_salt = salt ?enc\<rparr>),
                   content := [], title := title nt, updatedAt := now\<rparr>"
    have "fst (ns_encryptNote P rnd now k password s) = fst (saveNote ?n' s1)"
      using Pair Some
      by (cases "saveNote ?n' s1") (simp add: ns_encryptNote_def Let_def split: sum.splits)
    with coherent_saveNote [OF c1, of ?n'] show ?thesis by simp
  qed
qed

lemma ns_decryptNote_table:
  "db_notes (database (fst (ns_decryptNote P k password a))) = db_notes (database a)"
proof (cases "getNote k (database a)")
  case (Pair s1 r)
  with getNote_table [of k "database a"] have t: "db_notes s1 = db_notes (database a)" by simp
  from Pair t show ?thesis
    by (simp add: ns_decryptNote_def storeSessionPassword_def Let_def
          split: option.splits sum.splits)
qed

lemma ns_decryptNote_success:
  assumes "snd (ns_decryptNote P k password a) = Inr (Some unlocked)"
  shows "\<exists>note json encData dec.
           snd (getNote k (database a)) = Some note
         \<and> isEncrypted note \<and> encryptedData note = Some json
         \<and> JSON_parse P json = Some encData
         \<and> decryptNote P (env_content encData) (env_title encData) password (env_salt encData)
             = Inr dec
         \<and> unlocked = note\<lparr>isEncrypted := False, hasBeenEncrypted := True,
                             content := d_content dec, title := d_title dec,
                             plainTextContent := Some (extractPlainText P (d_content dec))\<rparr>"
proof (cases "getNote k (database a)")
  case (Pair s1 r)
  with assms show ?thesis
    by (auto simp: ns_decryptNote_def Let_def split: option.splits sum.splits if_splits)
qed

text \<open>
  Claim C10. \<open>decryptNote\<close> of the note service never writes to the table: whatever
  it returns, the table is as it was. When it succeeds, the note it returns has
  \<open>isEncrypted = false\<close> and the decrypted title and content, and is the stored note
  with those fields (and the plain text) replaced, while the stored note still has
  \<open>isEncrypted = true\<close> and its envelope. (The point cache holds what the table
  holds, as it does in every state the services reach.)
\<close>

theorem C10_unlock_writes_nothing:
  assumes "cache_coherent (database a)"
  shows "db_notes (database (fst (ns_decryptNote P k password a))) = db_notes (database a)
       \<and> (\<forall>unlocked. snd (ns_decryptNote P k password a) = Inr (Some unlocked) \<longrightarrow>
            isEncrypted unlocked = False
          \<and> (\<exists>stored json encData dec.
                table_get k (db_notes (database (fst (ns_decryptNote P k password a))))
                  = Some stored
              \<and> table_get k (db_notes (database a)) = Some stored
              \<and> isEncrypted stored = True
              \<and> encryptedData stored = Some json
              \<and> JSON_parse P json = Some encData
              \<and> decryptNote P (env_content encData) (env_title encData) password
                   (env_salt encData) = Inr dec
              \<and> title unlocked = d_title dec
              \<and> content unlocked = d_content dec
              \<and> unlocked = stored\<lparr>isEncrypted := False, hasBeenEncrypted := True,
                                    content := d_content dec, title := d_title dec,
                                    plainTextContent :=
                                      Some (extractPlainText P (d_content dec))\<rparr>))"
proof (intro conjI allI impI)
  show "db_notes (database (fst (ns_decryptNote P k password a))) = db_notes (database a)"
    by (rule ns_decryptNote_table)
next
  fix unlocked
  assume s: "snd (ns_decryptNote P k password a) = Inr (Some unlocked)"
  from ns_decryptNote_success [OF s] obtain nt json encData dec where
    g: "snd (getNote k (database a)) = Some nt"
    and e: "isEncrypted nt" "encryptedData nt = Some json"
      "JSON_parse P json = Some encData"
      "decryptNote P (env_content encData) (env_title encData) password (env_salt encData)
         = Inr dec"
    and u: "unlocked = nt\<lparr>isEncrypted := False, hasBeenEncrypted := True,
                           content := d_content dec, title := d_title dec,
                           plainTextContent := Some (extractPlainText P (d_content dec))\<rparr>"
    by (elim exE conjE)
  from u show "isEncrypted unlocked = False" by simp
  have t: "table_get k (db_notes (database a)) = Some nt"
    by (rule coherent_found [OF assms g])
  show "\<exists>stored json encData dec.
                table_get k (db_notes (database (fst (ns_decryptNote P k password a))))
                  = Some stored
              \<and> table_get k (db_notes (database a)) = Some stored
              \<and> isEncrypted stored = True
              \<and> encryptedData stored = Some json
              \<and> JSON_parse P json = Some encData
              \<and> decryptNote P (env_content encData) (env_title encData) password
                   (env_salt encData) = Inr dec
              \<and> title unlocked = d_title dec
              \<and> content unlocked = d_content dec
              \<and> unlocked = stored\<lparr>isEncrypted := False, hasBeenEncrypted := True,
                                    content := d_content dec, title := d_title dec,
                                    plainTextContent :=
                                      Some (extractPlainText P (d_content dec))\<rparr>"
    using t e u
    by (intro exI [of _ nt] exI [of _ json] exI [of _ encData] exI [of _ dec])
       (simp add: ns_decryptNote_table)
qed

lemma locked_scenario_coherent: "cache_coherent (database locked_scenario)"
  unfolding locked_scenario_def secret_scenario_def
  by (simp add: coherent_ns_encryptNote coherent_createNote coherent_empty)

lemma locked_scenario_unlock:
  "snd (ns_decryptNote small_platform ''n1'' ''Abc123!'' locked_scenario)
     = Inr (Some (locked_note\<lparr>isEncrypted := False, content := ''<p>secret</p>'',
                  title := ''T'', plainTextContent := Some ''secret''\<rparr>))"
  by code_simp

theorem C10_unlock_writes_nothing_witness:
  "cache_coherent (database locked_scenario)
   \<and> snd (ns_decryptNote small_platform ''n1'' ''Abc123!'' locked_scenario)
       = Inr (Some (locked_note\<lparr>isEncrypted := False, content := ''<p>secret</p>'',
                    title := ''T'', plainTextContent := Some ''secret''\<rparr>))
   \<and> db_notes (database (fst (ns_decryptNote small_platform ''n1'' ''Abc123!'' locked_scenario)))
       = db_notes (database locked_scenario)
   \<and> db_notes (database locked_scenario) = [locked_note]
   \<and> isEncrypted locked_note"
proof -
  have l: "db_notes (database locked_scenario) = [locked_note]" by code_simp
  have i: "isEncrypted locked_note" by (simp add: locked_note_def)
  from C10_unlock_writes_nothing
         [OF locked_scenario_coherent, of small_platform "''n1''" "''Abc123!''"]
  have "db_notes (database (fst (ns_decryptNote small_platform ''n1'' ''Abc123!'' locked_scenario)))
       = db_notes (database locked_scenario)"
    by (rule conjunct1)
  with locked_scenario_coherent locked_scenario_unlock l i show ?thesis by simp
qed


section \<open>C9: reading a note\<close>

lemma getNote_pair:
  "snd (getNote k s) = Some nt \<Longrightarrow> getNote k s = (fst (getNote k s), Some nt)"
  by (simp add: prod_eq_iff)

lemma spread_lastAccessedAt:
  "(spread nt (no_updates\<lparr>u_lastAccessedAt := Some now\<rparr>))
      \<lparr>updatedAt := now, plainTextContent := plainTextContent nt\<rparr>
   = nt\<lparr>updatedAt := now, lastAccessedAt := Some now\<rparr>"
  by (simp add: spread_def no_updates_def)

lemma updateNote_effect:
  assumes "snd (getNote k s) = Some nt" and "\<not> next_io_rejects (fst (getNote k s))"
  shows "updateNote P now k updates s =
           (fst (saveNote
                  ((spread nt updates)
                     \<lparr>updatedAt := now,
                      plainTextContent :=
                        (case u_content updates of
                           None \<Rightarrow> plainTextContent nt
                         | Some c \<Rightarrow> if c \<noteq> [] then Some (extractPlainText P c)
                                    else plainTextContent nt)\<rparr>)
                  (fst (getNote k s))),
            Inr (Some ((spread nt updates)
                     \<lparr>updatedAt := now,
                      plainTextContent :=
                        (case u_content updates of
                           None \<Rightarrow> plainTextContent nt
                         | Some c \<Rightarrow> if c \<noteq> [] then Some (extractPlainText P c)
                                    else plainTextContent nt)\<rparr>)))"
  unfolding updateNote_def
  by (subst getNote_pair [OF assms(1)]) (simp add: Let_def saveNote_ok [OF assms(2)])

text \<open>
  Whenever \<open>getNote\<close> of the note service finds the note and its write succeeds, it
  stores the note with both \<open>lastAccessedAt\<close> and \<open>updatedAt\<close> set to the time of
  the read, and returns the note as it was before.
\<close>

lemma ns_getNote_effect:
  assumes "snd (getNote k s) = Some nt" and "\<not> next_io_rejects (fst (getNote k s))"
  shows "ns_getNote P now k s =
           (fst (saveNote (nt\<lparr>updatedAt := now, lastAccessedAt := Some now\<rparr>)
                  (fst (getNote k s))),
            Inr (Some nt))"
proof -
  let ?s1 = "fst (getNote k s)"
  have g: "getNote k ?s1 = (?s1, Some nt)"
    by (rule getNote_again [OF assms(1)])
  then have g1: "snd (getNote k ?s1) = Some nt" and g2: "fst (getNote k ?s1) = ?s1"
    by simp_all
  have c: "u_content (no_updates\<lparr>u_lastAccessedAt := Some now\<rparr>) = None"
    by (simp add: no_updates_def)
  have w: "\<not> next_io_rejects (fst (getNote k ?s1))"
    using assms(2) g2 by simp
  have u: "updateNote P now k (no_updates\<lparr>u_lastAccessedAt := Some now\<rparr>) ?s1
             = (fst (saveNote (nt\<lparr>updatedAt := now, lastAccessedAt := Some now\<rparr>) ?s1),
                Inr (Some (nt\<lparr>updatedAt := now, lastAccessedAt := Some now\<rparr>)))"
    using updateNote_effect [OF g1 w, of P now "no_updates\<lparr>u_lastAccessedAt := Some now\<rparr>"]
    by (simp only: c option.case spread_lastAccessedAt g2)
  show ?thesis
    unfolding ns_getNote_def
    by (subst getNote_pair [OF assms(1)]) (simp add: u)
qed

text \<open>
  Claim C9 says that a read through \<open>getNote\<close> leaves \<open>updatedAt\<close> as it is. The
  code at the claim's input: a note stored at time 1000 is read at time 5000. The
  read returns the note as stored, and the stored note then has \<open>updatedAt = 5000\<close>
  (and \<open>lastAccessedAt = 5000\<close>): the read goes through \<open>updateNote\<close>, which
  always sets \<open>updatedAt\<close>.
\<close>

theorem C9_read_bumps_updatedAt:
  "map updatedAt (db_notes read_scenario) = [1000]
   \<and> snd (ns_getNote small_platform 5000 ''n1'' read_scenario)
       = Inr (Some (plain_note ''n1'' ''A'' ''hello'' 1000))
   \<and> map updatedAt (db_notes (fst (ns_getNote small_platform 5000 ''n1'' read_scenario)))
       = [5000]
   \<and> map lastAccessedAt (db_notes (fst (ns_getNote small_platform 5000 ''n1'' read_scenario)))
       = [Some 5000]"
  by code_simp

section \<open>C6: the plain text of a stored note\<close>

text \<open>
  For every note that is found and every write that succeeds: \<open>encryptNote\<close> of the
  note service stores the note with an empty content and the plain text it had, and
  so does \<open>updateNote\<close> with the empty content.
\<close>

lemma ns_encryptNote_effect:
  assumes "snd (getNote k s) = Some nt" and "\<not> next_io_rejects (fst (getNote k s))"
  shows "\<exists>locked. ns_encryptNote P rnd now k password s
                    = (fst (saveNote locked (fst (getNote k s))), Inr (Some locked))
           \<and> content locked = [] \<and> isEncrypted locked
           \<and> title locked = title nt
           \<and> plainTextContent locked = plainTextContent nt
           \<and> updatedAt locked = now"
  unfolding ns_encryptNote_def
  by (subst getNote_pair [OF assms(1)]) (simp add: Let_def saveNote_ok [OF assms(2)])

lemma updateNote_empty_content:
  assumes "snd (getNote k s) = Some nt" and "\<not> next_io_rejects (fst (getNote k s))"
  shows "\<exists>updated. updateNote P now k (no_updates\<lparr>u_content := Some []\<rparr>) s
                    = (fst (saveNote updated (fst (getNote k s))), Inr (Some updated))
           \<and> content updated = []
           \<and> plainTextContent updated = plainTextContent nt"
  by (simp add: updateNote_effect [OF assms] spread_def no_updates_def)

text \<open>
  Claim C6 says that the stored \<open>plainTextContent\<close> is always the text of the stored
  \<open>content\<close>. The code at the claim's input: a note with the content
  \<open><p>secret</p>\<close> is stored with the plain text \<open>secret\<close>. After \<open>encryptNote\<close>
  the stored content is empty and the stored plain text is still \<open>secret\<close>; after
  \<open>updateNote\<close> with the empty content the same holds. The text of the empty
  content is empty.
\<close>

theorem C6_stale_plain_text:
  "map content (db_notes secret_scenario) = [''<p>secret</p>'']
   \<and> map plainTextContent (db_notes secret_scenario) = [Some ''secret'']
   \<and> map content (db_notes (database locked_scenario)) = ['''']
   \<and> map plainTextContent (db_notes (database locked_scenario)) = [Some ''secret'']
   \<and> map content (db_notes (fst (updateNote small_platform 3000 ''n1''
           (no_updates\<lparr>u_content := Some ''''\<rparr>) secret_scenario))) = ['''']
   \<and> map plainTextContent (db_notes (fst (updateNote small_platform 3000 ''n1''
           (no_updates\<lparr>u_content := Some ''''\<rparr>) secret_scenario))) = [Some ''secret'']
   \<and> extractPlainText small_platform '''' = ''''"
  by code_simp

section \<open>C7: the delay of the auto-save and the firing of its timer\<close>

lemma actualDelay_bounds:
  assumes "100 \<le> delay opts" and "delay opts \<le> maxDelay opts"
  shows "100 \<le> actualDelay opts t" and "actualDelay opts t \<le> delay opts"
    and "actualDelay opts t \<le> maxDelay opts"
  using assms by (simp_all add: actualDelay_def)

lemma timerDelay_in_range:
  assumes "100 \<le> delay opts" and "delay opts \<le> maxDelay opts"
    and "maxDelay opts \<le> 2147483647"
  shows "timerDelay (actualDelay opts t) = actualDelay opts t"
  using actualDelay_bounds [OF assms(1,2), of t] assms(3)
  by (simp add: timerDelay_def TIMEOUT_MAX_def)

lemma foldl_lastSaveRef_frame:
  "timers (foldl (\<lambda>a' r. a'\<lparr>lastSaveRef := r\<rparr>) a rs) = timers a
   \<and> timeoutRef (foldl (\<lambda>a' r. a'\<lparr>lastSaveRef := r\<rparr>) a rs) = timeoutRef a
   \<and> pendingNoteRef (foldl (\<lambda>a' r. a'\<lparr>lastSaveRef := r\<rparr>) a rs) = pendingNoteRef a
   \<and> nextHandle (foldl (\<lambda>a' r. a'\<lparr>lastSaveRef := r\<rparr>) a rs) = nextHandle a
   \<and> saves (foldl (\<lambda>a' r. a'\<lparr>lastSaveRef := r\<rparr>) a rs) = saves a"
  by (induction rs arbitrary: a) simp_all

lemma resolveSaves_frame:
  "timers (resolveSaves t a) = timers a"
  "timeoutRef (resolveSaves t a) = timeoutRef a"
  "pendingNoteRef (resolveSaves t a) = pendingNoteRef a"
  "nextHandle (resolveSaves t a) = nextHandle a"
  "saves (resolveSaves t a) = saves a"
  by (simp_all add: resolveSaves_def foldl_lastSaveRef_frame)

lemma advance_none:
  assumes "list_all (\<lambda>tm. t < snd tm) (timers a)"
  shows "advance persist t a = resolveSaves t a"
proof -
  from assms have n: "filter (\<lambda>tm. snd tm \<le> t) (timers a) = []"
    by (auto simp: list_all_iff filter_empty_conv)
  from assms have k: "filter (\<lambda>tm. \<not> snd tm \<le> t) (timers a) = timers a"
    by (auto simp: list_all_iff filter_id_conv)
  show ?thesis by (simp add: advance_def n k)
qed

lemma clear_armed:
  assumes "armed_ok a"
  shows "(case timeoutRef a of None \<Rightarrow> timers a
          | Some h \<Rightarrow> filter (\<lambda>tm. fst tm \<noteq> h) (timers a)) = []"
proof (cases "timeoutRef a")
  case None
  with assms show ?thesis by (cases "timers a") (simp_all add: armed_ok_def)
next
  case (Some h)
  with assms show ?thesis by (auto simp: armed_ok_def list_all_iff filter_empty_conv)
qed

lemma scheduleSave_effect:
  assumes "armed_ok a"
  shows "scheduleSave opts t n a =
           a\<lparr>pendingNoteRef := Some n,
             timers := [(nextHandle a,
                         t + timerDelay (actualDelay opts (t - lastSaveRef a)))],
             nextHandle := nextHandle a + 1,
             timeoutRef := Some (nextHandle a)\<rparr>"
proof (cases "timeoutRef a")
  case None
  with clear_armed [OF assms] show ?thesis
    by (simp add: scheduleSave_def setTimeout_def Let_def)
next
  case (Some h)
  with clear_armed [OF assms] show ?thesis
    by (simp add: scheduleSave_def setTimeout_def clearTimeout_def Let_def)
qed

lemma scheduleSave_armed: "armed_ok a \<Longrightarrow> armed_ok (scheduleSave opts t n a)"
  by (simp add: scheduleSave_effect) (simp add: armed_ok_def)

lemma armed_ok_resolveSaves: "armed_ok (resolveSaves t a) = armed_ok a"
  by (simp add: armed_ok_def resolveSaves_frame)

lemma advance_fires_once:
  assumes "timers a = [(h, d)]" and "d \<le> T" and "pendingNoteRef a = Some n"
  shows "saves (advance persist T a) = saves a @ [n]"
    and "timers (advance persist T a) = []"
    and "pendingNoteRef (advance persist T a) = None"
  using assms
  by (simp_all add: advance_def resolveSaves_frame timerCallback_def hook_saveNote_def)

lemma burst_edits:
  assumes "armed_ok a" and "burst persist opts es a" and "es \<noteq> []"
  shows "saves (edits persist opts es a) = saves a
       \<and> pendingNoteRef (edits persist opts es a) = Some (snd (last es))
       \<and> length (timers (edits persist opts es a)) = 1"
  using assms
proof (induction es arbitrary: a)
  case Nil
  then show ?case by simp
next
  case (Cons e es)
  obtain t n where e: "e = (t, n)" by (cases e)
  from Cons.prems(2) e have q: "list_all (\<lambda>tm. t < snd tm) (timers a)"
    and b: "burst persist opts es (scheduleSave opts t n (advance persist t a))"
    by simp_all
  let ?a0 = "advance persist t a"
  let ?a1 = "scheduleSave opts t n ?a0"
  have r: "?a0 = resolveSaves t a" by (rule advance_none [OF q])
  have a0: "armed_ok ?a0" using Cons.prems(1) by (simp add: r armed_ok_resolveSaves)
  have s: "edits persist opts (e # es) a = edits persist opts es ?a1"
    by (simp add: e)
  have a1: "armed_ok ?a1" by (rule scheduleSave_armed [OF a0])
  have f: "saves ?a1 = saves a" "pendingNoteRef ?a1 = Some n" "length (timers ?a1) = 1"
    by (simp_all add: scheduleSave_effect [OF a0]) (simp add: r resolveSaves_frame)
  show ?case
  proof (cases "es = []")
    case True
    with s f e show ?thesis by simp
  next
    case False
    from Cons.IH [OF a1 b False] s f False show ?thesis by simp
  qed
qed

lemma armed_ok_initial: "armed_ok initialAutoSave"
  by (simp add: armed_ok_def initialAutoSave_def)

lemma timerCallback_frame:
  "timers (timerCallback persist t a) = timers a"
  "timeoutRef (timerCallback persist t a) = timeoutRef a"
  by (simp_all add: timerCallback_def hook_saveNote_def split: option.splits)

lemma foldl_timerCallback_frame:
  "timers (foldl (\<lambda>a' tm. timerCallback persist (snd tm) a') a tms) = timers a
   \<and> timeoutRef (foldl (\<lambda>a' tm. timerCallback persist (snd tm) a') a tms) = timeoutRef a"
  by (induction tms arbitrary: a) (simp_all add: timerCallback_frame)

lemma armed_ok_advance: "armed_ok a \<Longrightarrow> armed_ok (advance persist t a)"
  unfolding armed_ok_def advance_def
  by (simp add: resolveSaves_frame foldl_timerCallback_frame list_all_iff)

lemma armed_ok_edits: "armed_ok a \<Longrightarrow> armed_ok (edits persist opts es a)"
proof (induction es arbitrary: a)
  case Nil
  then show ?case by simp
next
  case (Cons e es)
  obtain t n where e: "e = (t, n)" by (cases e)
  from Cons.prems have "armed_ok (scheduleSave opts t n (advance persist t a))"
    by (intro scheduleSave_armed armed_ok_advance)
  from Cons.IH [OF this] e show ?case by simp
qed

text \<open>
  Claim C7, as the code has it. With \<open>100 \<le> delay \<le> maxDelay \<le> 2147483647\<close> (the
  defaults are 2000 and 10000), the delay
  \<open>min(delay, max(100, maxDelay - timeSinceLastSave))\<close> lies between 100 and
  \<open>maxDelay\<close> for every time since the last save. Scheduling a save cancels the
  timeout armed before, so exactly one timeout is armed, due after that delay. For
  a burst of edits, each arriving before the timeout armed by the one before is
  due, nothing is saved during the burst, and when the last timeout is due the hook
  fires once, with the note of the last edit; this whatever the saves of the hook
  do and however long they take.
\<close>

theorem C7_delay_bounds_and_single_fire:
  assumes "100 \<le> delay opts" and "delay opts \<le> maxDelay opts"
    and "maxDelay opts \<le> 2147483647"
    and "armed_ok a" and "burst persist opts es a" and "es \<noteq> []"
    and "list_all (\<lambda>tm. snd tm \<le> T) (timers (edits persist opts es a))"
  shows "100 \<le> actualDelay opts timeSinceLastSave
       \<and> actualDelay opts timeSinceLastSave \<le> maxDelay opts
       \<and> map snd (timers (scheduleSave opts t n a))
           = [t + actualDelay opts (t - lastSaveRef a)]
       \<and> pendingNoteRef (scheduleSave opts t n a) = Some n
       \<and> saves (edits persist opts es a) = saves a
       \<and> saves (advance persist T (edits persist opts es a)) = saves a @ [snd (last es)]
       \<and> timers (advance persist T (edits persist opts es a)) = []"
proof -
  let ?a' = "edits persist opts es a"
  from burst_edits [OF assms(4,5,6)]
  have s: "saves ?a' = saves a" and p: "pendingNoteRef ?a' = Some (snd (last es))"
    and l: "length (timers ?a') = 1" by simp_all
  from l obtain tm where tm: "timers ?a' = [tm]"
    by (cases "timers ?a'") simp_all
  then have tm': "timers ?a' = [(fst tm, snd tm)]" by simp
  from assms(7) tm have d: "snd tm \<le> T" by simp
  from advance_fires_once [OF tm' d p, of persist] s
  have "saves (advance persist T ?a') = saves a @ [snd (last es)]
        \<and> timers (advance persist T ?a') = []" by simp
  then show ?thesis
    using s actualDelay_bounds [OF assms(1,2)] scheduleSave_effect [OF assms(4), of opts t n]
      timerDelay_in_range [OF assms(1,2,3)]
    by simp
qed

text \<open>
  The bound on \<open>maxDelay\<close> is needed: a delay of 3000000000 ms does not fit the 32
  bits of a timer, and the timeout is due 1 ms after the edit.
\<close>

lemma large_delay_fires_at_once:
  "actualDelay \<lparr>delay = 3000000000, maxDelay = 4000000000\<rparr>
     (1700000001000 - lastSaveRef (saved_at 1700000000000)) = 3000000000
   \<and> map snd (timers (scheduleSave \<lparr>delay = 3000000000, maxDelay = 4000000000\<rparr>
                        1700000001000 note_A (saved_at 1700000000000)))
       = [1700000001001]"
  by code_simp

text \<open>
  After a save that resolved at time 1700000000000, three edits arrive 1000, 2500
  and 4000 ms later, each before the timeout armed by the one before is due: one
  save, of the last note.
\<close>

lemma burst_after_save:
  "burst save_in_20ms defaultOptions
     [(1700000001000, note_A), (1700000002500, note_B), (1700000004000, note_C)]
     (saved_at 1700000000000)"
  by code_simp

theorem C7_delay_bounds_and_single_fire_witness:
  "100 \<le> delay defaultOptions \<and> delay defaultOptions \<le> maxDelay defaultOptions
   \<and> maxDelay defaultOptions \<le> 2147483647
   \<and> armed_ok (saved_at 1700000000000)
   \<and> burst save_in_20ms defaultOptions
        [(1700000001000, note_A), (1700000002500, note_B), (1700000004000, note_C)]
        (saved_at 1700000000000)
   \<and> map snd (timers (scheduleSave defaultOptions 1700000001000 note_A
                        (saved_at 1700000000000)))
       = [1700000003000]
   \<and> saves (advance save_in_20ms 1700000006000
              (edits save_in_20ms defaultOptions
                 [(1700000001000, note_A), (1700000002500, note_B), (1700000004000, note_C)]
                 (saved_at 1700000000000)))
       = [note_C]"
proof -
  have h1: "100 \<le> delay defaultOptions" and h2: "delay defaultOptions \<le> maxDelay defaultOptions"
    and h3: "maxDelay defaultOptions \<le> 2147483647"
    by (simp_all add: defaultOptions_def)
  have h4: "armed_ok (saved_at 1700000000000)"
    by (simp add: armed_ok_def saved_at_def initialAutoSave_def)
  have h6: "[(1700000001000, note_A), (1700000002500, note_B), (1700000004000, note_C)] \<noteq> []"
    by simp
  have h7: "list_all (\<lambda>tm. snd tm \<le> 1700000006000)
              (timers (edits save_in_20ms defaultOptions
                 [(1700000001000, note_A), (1700000002500, note_B), (1700000004000, note_C)]
                 (saved_at 1700000000000)))"
    by code_simp
  have s0: "saves (saved_at 1700000000000) = []"
    "lastSaveRef (saved_at 1700000000000) = 1700000000000"
    by (simp_all add: saved_at_def initialAutoSave_def)
  have d: "actualDelay defaultOptions (1700000001000 - 1700000000000) = 2000"
    by (simp add: actualDelay_def defaultOptions_def)
  from C7_delay_bounds_and_single_fire
         [OF h1 h2 h3 h4 burst_after_save h6 h7, of 0 1700000001000 note_A]
  have "map snd (timers (scheduleSave defaultOptions 1700000001000 note_A
                           (saved_at 1700000000000)))
          = [1700000001000
             + actualDelay defaultOptions
                 (1700000001000 - lastSaveRef (saved_at 1700000000000))]
        \<and> saves (advance save_in_20ms 1700000006000
              (edits save_in_20ms defaultOptions
                 [(1700000001000, note_A), (1700000002500, note_B), (1700000004000, note_C)]
                 (saved_at 1700000000000)))
            = saves (saved_at 1700000000000) @ [note_C]"
    by simp
  with s0 d h1 h2 h3 h4 burst_after_save show ?thesis by simp
qed

text \<open>
  Claim C7 as stated fails where it says that the hook never fires twice for a
  burst of edits within \<open>delay\<close> of each other. With the default options and no
  save yet in the session, the delay of the first edit is 100 ms; an edit 500 ms
  later, well within the 2000 ms of \<open>delay\<close>, arrives after the first timeout has
  fired, and is saved by a second one. And the lower bound of 100 ms holds only for
  a configured \<open>delay\<close> of at least 100: with \<open>delay = 50\<close> the computed delay is 50.
\<close>

theorem C7_two_fires_counterexample:
  "actualDelay defaultOptions (1700000000000 - lastSaveRef initialAutoSave) = 100
   \<and> 1700000000500 - 1700000000000 < delay defaultOptions
   \<and> saves (advance save_in_20ms 1700000005000
              (edits save_in_20ms defaultOptions
                 [(1700000000000, note_A), (1700000000500, note_B)] initialAutoSave))
       = [note_A, note_B]
   \<and> actualDelay \<lparr>delay = 50, maxDelay = 10000\<rparr> 3000 = 50"
  by code_simp

end
